theory Spec2Isabelle
  imports Complex_Main
begin


section \<open>Platform values: JavaScript truthiness, SQLite text and timestamps\<close>

text \<open>
  The tools of \<^verbatim>\<open>src/tools\<close> are thin wrappers around SQL statements run by
  better-sqlite3. A table is a list of rows in rowid order; every tool takes the database
  and the wall clock (milliseconds since the epoch, as \<^verbatim>\<open>Date.now()\<close> gives it) and
  returns the database it leaves behind. An exception thrown by a statement is a value
  \<open>Inl e\<close>; statements run in autocommit mode, so the database a failing tool leaves is the
  one before the failing statement.
\<close>

datatype sqlite_code =
    SQLITE_ERROR
  | SQLITE_CONSTRAINT_FOREIGNKEY
  | SQLITE_CONSTRAINT_NOTNULL

text \<open>
  The exceptions a tool can let escape. \<open>SqliteError\<close> is what better-sqlite3 throws, with the
  engine's result code; \<open>TypeError\<close> is thrown when a parameter cannot be bound;
  \<open>RangeError\<close> by \<^verbatim>\<open>toISOString\<close> on an invalid date. \<open>ValidationError\<close> is the
  caller-error kind of the error taxonomy; no statement of the source raises it.
\<close>

datatype error =
    SqliteError sqlite_code
  | TypeError
  | RangeError
  | ValidationError


text \<open>\<^verbatim>\<open>x || null\<close> on an optional string: undefined and the empty string are falsy.\<close>

fun or_null :: "string option \<Rightarrow> string option" where
  "or_null None = None"
| "or_null (Some s) = (if s = [] then None else Some s)"

text \<open>\<^verbatim>\<open>x || null\<close> on an optional number: undefined and 0 are falsy.\<close>

fun num_or_null :: "int option \<Rightarrow> int option" where
  "num_or_null None = None"
| "num_or_null (Some n) = (if n = 0 then None else Some n)"


text \<open>
  The rowid SQLite gives to a row inserted into an \<^verbatim>\<open>INTEGER PRIMARY KEY\<close> table:
  one more than the largest rowid in use, 1 for an empty table.
\<close>

definition next_rowid :: "int list \<Rightarrow> int" where
  "next_rowid ids = (if ids = [] then 1 else Max (set ids) + 1)"

subsection \<open>Text comparison\<close>

text \<open>
  SQLite compares two TEXT values under the BINARY collation: byte by byte, a proper prefix
  being smaller.
\<close>

fun text_lt :: "string \<Rightarrow> string \<Rightarrow> bool" where
  "text_lt [] [] = False"
| "text_lt [] (d # ds) = True"
| "text_lt (c # cs) [] = False"
| "text_lt (c # cs) (d # ds) =
     (if (of_char c :: nat) < of_char d then True
      else if (of_char d :: nat) < of_char c then False
      else text_lt cs ds)"

subsection \<open>Calendar dates\<close>

text \<open>
  Both \<^verbatim>\<open>Date.prototype.toISOString\<close> and SQLite's \<^verbatim>\<open>CURRENT_TIMESTAMP\<close> print a UTC
  instant in the proleptic Gregorian calendar. \<open>civil_from_days\<close> turns a day number
  (days since 1970-01-01) into year, month and day.
\<close>

definition civil_from_days :: "int \<Rightarrow> int \<times> int \<times> int" where
  "civil_from_days z0 =
     (let z = z0 + 719468;
          era = z div 146097;
          doe = z - era * 146097;
          yoe = (doe - doe div 1460 + doe div 36524 - doe div 146096) div 365;
          y = yoe + era * 400;
          doy = doe - (365 * yoe + yoe div 4 - yoe div 100);
          mp = (5 * doy + 2) div 153;
          d = doy - (153 * mp + 2) div 5 + 1;
          m = (if mp < 10 then mp + 3 else mp - 9)
      in (if m \<le> 2 then y + 1 else y, m, d))"

definition digit_char :: "nat \<Rightarrow> char" where
  "digit_char n = char_of (48 + n mod 10)"

text \<open>The last \<open>w\<close> decimal digits of \<open>n\<close>, zero-padded.\<close>

fun pad_digits :: "nat \<Rightarrow> nat \<Rightarrow> string" where
  "pad_digits 0 n = []"
| "pad_digits (Suc w) n = pad_digits w (n div 10) @ [digit_char n]"

text \<open>
  \<^verbatim>\<open>CURRENT_TIMESTAMP\<close>: the text \<^verbatim>\<open>YYYY-MM-DD HH:MM:SS\<close> of the current UTC second.
\<close>

definition CURRENT_TIMESTAMP :: "int \<Rightarrow> string" where
  "CURRENT_TIMESTAMP now_ms =
     (let secs = now_ms div 1000;
          (y, m, d) = civil_from_days (secs div 86400);
          sod = secs mod 86400
      in pad_digits 4 (nat y) @ ''-'' @ pad_digits 2 (nat m) @ ''-'' @ pad_digits 2 (nat d)
         @ '' '' @ pad_digits 2 (nat (sod div 3600)) @ '':''
         @ pad_digits 2 (nat (sod mod 3600 div 60)) @ '':'' @ pad_digits 2 (nat (sod mod 60)))"

text \<open>
  \<^verbatim>\<open>new Date(t).toISOString()\<close>: \<^verbatim>\<open>YYYY-MM-DDTHH:MM:SS.sssZ\<close>; years outside
  0..9999 are printed with a sign and six digits, and a time value beyond
  \<open>\<plusminus>8.64e15\<close> ms is an invalid date, for which the method throws a RangeError.
\<close>

definition toISOString :: "int \<Rightarrow> error + string" where
  "toISOString t =
     (if \<bar>t\<bar> > 8640000000000000 then Inl RangeError
      else
        let (y, m, d) = civil_from_days (t div 86400000);
            msod = t mod 86400000;
            year = (if 0 \<le> y \<and> y \<le> 9999 then pad_digits 4 (nat y)
                    else (if y < 0 then ''-'' else ''+'') @ pad_digits 6 (nat \<bar>y\<bar>))
        in Inr (year @ ''-'' @ pad_digits 2 (nat m) @ ''-'' @ pad_digits 2 (nat d)
           @ ''T'' @ pad_digits 2 (nat (msod div 3600000)) @ '':''
           @ pad_digits 2 (nat (msod mod 3600000 div 60000)) @ '':''
           @ pad_digits 2 (nat (msod mod 60000 div 1000)) @ ''.''
           @ pad_digits 3 (nat (msod mod 1000)) @ ''Z''))"

section \<open>The database\<close>

text \<open>The five tables of \<^verbatim>\<open>initializeSchema\<close> (database.ts), one record per row.\<close>

record MemoryEntry =
  m_id :: int
  m_key :: string
  m_content :: string
  m_tags :: "string option"
  m_scope :: string
  m_source :: "string option"
  m_created_at :: string
  m_updated_at :: string

record Skill =
  s_id :: int
  s_name :: string
  s_version :: string
  s_source :: string
  s_project_path :: "string option"
  s_installed_by :: "string option"
  s_installed_at :: string
  s_last_used_at :: "string option"
  s_use_count :: int

record SkillUsage =
  u_id :: int
  u_skill_name :: string
  u_project_path :: "string option"
  u_started_at :: "string option"
  u_completed_at :: "string option"
  u_success :: "bool option"
  u_outcome :: "string option"
  u_tokens_used :: "int option"
  u_notes :: "string option"

record Failure =
  f_id :: int
  f_error_pattern :: string
  f_error_message :: "string option"
  f_solution :: "string option"
  f_skill_name :: "string option"
  f_project_path :: "string option"
  f_occurrence_count :: int
  f_last_seen_at :: string
  f_created_at :: string

record ContextEntry =
  c_id :: int
  c_session_id :: string
  c_key :: string
  c_value :: string
  c_skill_name :: "string option"
  c_expires_at :: "string option"
  c_created_at :: string

record database =
  t_memory :: "MemoryEntry list"
  t_skills :: "Skill list"
  t_skill_usage :: "SkillUsage list"
  t_failures :: "Failure list"
  t_context :: "ContextEntry list"

definition empty_db :: database where
  "empty_db = \<lparr>t_memory = [], t_skills = [], t_skill_usage = [], t_failures = [], t_context = []\<rparr>"

section \<open>Skill registry and usage tracker (tools/skills.ts)\<close>

text \<open>
  \<^verbatim>\<open>skillRegister\<close>: insert, or on a name conflict update version, source and
  project_path of the existing row. \<^verbatim>\<open>installed_at\<close> and \<^verbatim>\<open>use_count\<close> take
  their column defaults.
\<close>

definition skillGet :: "database \<Rightarrow> string \<Rightarrow> Skill option" where
  "skillGet db name = find (\<lambda>s. s_name s = name) (t_skills db)"

definition skillRegister ::
  "int \<Rightarrow> database \<Rightarrow> string \<Rightarrow> string \<Rightarrow> string \<Rightarrow> string option \<Rightarrow> string option
     \<Rightarrow> Skill option \<times> database" where
  "skillRegister now db name version source project_path installed_by =
     (let db' =
        (if \<exists>s \<in> set (t_skills db). s_name s = name
         then db\<lparr>t_skills := map (\<lambda>s. if s_name s = name
                     then s\<lparr>s_version := version, s_source := source,
                            s_project_path := or_null project_path\<rparr>
                     else s) (t_skills db)\<rparr>
         else db\<lparr>t_skills := t_skills db @
                [\<lparr>s_id = next_rowid (map s_id (t_skills db)), s_name = name,
                  s_version = version, s_source = source,
                  s_project_path = or_null project_path,
                  s_installed_by = or_null installed_by,
                  s_installed_at = CURRENT_TIMESTAMP now,
                  s_last_used_at = None, s_use_count = 0\<rparr>]\<rparr>)
      in (skillGet db' name, db'))"

text \<open>
  \<^verbatim>\<open>skillUsageStart\<close>. The connection is opened with \<^verbatim>\<open>foreign_keys = ON\<close> and
  \<^verbatim>\<open>skill_usage.skill_name\<close> references \<^verbatim>\<open>skills(name)\<close>, so the INSERT throws when
  no skill has that name; the UPDATE of \<^verbatim>\<open>last_used_at\<close> after it is then never run.
\<close>

definition skillUsageStart ::
  "int \<Rightarrow> database \<Rightarrow> string \<Rightarrow> string option \<Rightarrow> (error + int) \<times> database" where
  "skillUsageStart now db skill_name project_path =
     (if \<not> (\<exists>s \<in> set (t_skills db). s_name s = skill_name)
      then (Inl (SqliteError SQLITE_CONSTRAINT_FOREIGNKEY), db)
      else
        let lastInsertRowid = next_rowid (map u_id (t_skill_usage db));
            db1 = db\<lparr>t_skill_usage := t_skill_usage db @
                   [\<lparr>u_id = lastInsertRowid, u_skill_name = skill_name,
                     u_project_path = or_null project_path,
                     u_started_at = Some (CURRENT_TIMESTAMP now),
                     u_completed_at = None, u_success = None, u_outcome = None,
                     u_tokens_used = None, u_notes = None\<rparr>]\<rparr>;
            db2 = db1\<lparr>t_skills := map (\<lambda>s. if s_name s = skill_name
                         then s\<lparr>s_last_used_at := Some (CURRENT_TIMESTAMP now)\<rparr>
                         else s) (t_skills db1)\<rparr>
        in (Inr lastInsertRowid, db2))"

text \<open>
  \<^verbatim>\<open>skillUsageEnd\<close>: the UPDATE of the usage row (\<open>usage_done\<close> is its SET clause
  under \<^verbatim>\<open>WHERE id = ?\<close>), then the SELECT of its \<^verbatim>\<open>skill_name\<close> and, when a row
  was found, the increment of \<^verbatim>\<open>use_count\<close> (\<open>count_use\<close>, under
  \<^verbatim>\<open>WHERE name = ?\<close>). The result is \<^verbatim>\<open>{ success: true }\<close> on every path.
\<close>

definition usage_done ::
  "int \<Rightarrow> int \<Rightarrow> bool \<Rightarrow> string option \<Rightarrow> int option \<Rightarrow> string option
     \<Rightarrow> SkillUsage \<Rightarrow> SkillUsage" where
  "usage_done now usage_id success outcome tokens_used notes u =
     (if u_id u = usage_id
      then u\<lparr>u_completed_at := Some (CURRENT_TIMESTAMP now),
             u_success := Some success,
             u_outcome := or_null outcome,
             u_tokens_used := num_or_null tokens_used,
             u_notes := or_null notes\<rparr>
      else u)"

definition count_use :: "string \<Rightarrow> Skill \<Rightarrow> Skill" where
  "count_use name s =
     (if s_name s = name then s\<lparr>s_use_count := s_use_count s + 1\<rparr> else s)"

definition skillUsageEnd ::
  "int \<Rightarrow> database \<Rightarrow> int \<Rightarrow> bool \<Rightarrow> string option \<Rightarrow> int option \<Rightarrow> string option
     \<Rightarrow> bool \<times> database" where
  "skillUsageEnd now db usage_id success outcome tokens_used notes =
     (let db1 = db\<lparr>t_skill_usage :=
                   map (usage_done now usage_id success outcome tokens_used notes)
                       (t_skill_usage db)\<rparr>;
          usage = find (\<lambda>u. u_id u = usage_id) (t_skill_usage db1)
      in case usage of
           None \<Rightarrow> (True, db1)
         | Some u \<Rightarrow>
             (True, db1\<lparr>t_skills := map (count_use (u_skill_name u)) (t_skills db1)\<rparr>))"

subsection \<open>Recommendation\<close>

text \<open>
  SQLite's \<^verbatim>\<open>LIKE\<close>: \<^verbatim>\<open>%\<close> matches any run of characters, \<^verbatim>\<open>_\<close> any single
  one, and ASCII letters match without regard to case.
\<close>

definition ascii_lower :: "char \<Rightarrow> char" where
  "ascii_lower c =
     (let n = (of_char c :: nat) in if 65 \<le> n \<and> n \<le> 90 then char_of (n + 32) else c)"

fun like_match :: "string \<Rightarrow> string \<Rightarrow> bool" where
  "like_match [] [] = True"
| "like_match [] (c # cs) = False"
| "like_match (p # ps) [] = (p = CHR ''%'' \<and> like_match ps [])"
| "like_match (p # ps) (c # cs) =
     (if p = CHR ''%'' then like_match ps (c # cs) \<or> like_match (p # ps) cs
      else (p = CHR ''_'' \<or> ascii_lower p = ascii_lower c) \<and> like_match ps cs)"

text \<open>
  The rows of \<^verbatim>\<open>skills s LEFT JOIN skill_usage u ON s.name = u.skill_name\<close> for one
  skill: its usages, or a single row with every \<^verbatim>\<open>u\<close> column NULL when it has none.
\<close>

definition left_join_usage :: "database \<Rightarrow> Skill \<Rightarrow> SkillUsage option list" where
  "left_join_usage db s =
     (let us = filter (\<lambda>u. u_skill_name u = s_name s) (t_skill_usage db)
      in if us = [] then [None] else map Some us)"

text \<open>\<^verbatim>\<open>WHERE u.project_path LIKE ?\<close>: a NULL path does not match.\<close>

fun path_like :: "string \<Rightarrow> SkillUsage option \<Rightarrow> bool" where
  "path_like pat None = False"
| "path_like pat (Some u) =
     (case u_project_path u of None \<Rightarrow> False | Some p \<Rightarrow> like_match pat p)"

text \<open>\<^verbatim>\<open>CASE WHEN u.success THEN 1.0 ELSE 0.0 END\<close>: NULL is not true.\<close>

fun success_case :: "SkillUsage option \<Rightarrow> rat" where
  "success_case None = 0"
| "success_case (Some u) = (if u_success u = Some True then 1 else 0)"

text \<open>
  \<^verbatim>\<open>AVG\<close> is NULL over no rows. The mean is the exact rational here; SQLite
  computes it in double precision.
\<close>

definition AVG :: "rat list \<Rightarrow> rat option" where
  "AVG xs = (if xs = [] then None else Some (sum_list xs / of_nat (length xs)))"

text \<open>\<^verbatim>\<open>COUNT(u.id)\<close> counts the rows whose \<^verbatim>\<open>u.id\<close> is not NULL.\<close>

definition COUNT_u_id :: "SkillUsage option list \<Rightarrow> int" where
  "COUNT_u_id rows = int (length (filter (\<lambda>r. r \<noteq> None) rows))"

record Recommendation =
  r_skill :: Skill
  r_success_rate :: rat
  r_usage_count :: int

definition aggregate :: "Skill \<Rightarrow> SkillUsage option list \<Rightarrow> Recommendation" where
  "aggregate s rows =
     \<lparr>r_skill = s,
      r_success_rate = (case AVG (map success_case rows) of None \<Rightarrow> 0 | Some a \<Rightarrow> a),
      r_usage_count = COUNT_u_id rows\<rparr>"

text \<open>
  \<^verbatim>\<open>ORDER BY success_rate DESC, usage_count DESC\<close>, as a stable insertion sort over the
  groups in rowid order (SQL leaves the order of ties open).
\<close>

definition ranks_before :: "Recommendation \<Rightarrow> Recommendation \<Rightarrow> bool" where
  "ranks_before a b =
     (r_success_rate a > r_success_rate b
      \<or> (r_success_rate a = r_success_rate b \<and> r_usage_count a > r_usage_count b))"

fun insert_ranked :: "Recommendation \<Rightarrow> Recommendation list \<Rightarrow> Recommendation list" where
  "insert_ranked x [] = [x]"
| "insert_ranked x (y # ys) =
     (if ranks_before y x then y # insert_ranked x ys else x # y # ys)"

definition order_by_rank :: "Recommendation list \<Rightarrow> Recommendation list" where
  "order_by_rank rs = foldr insert_ranked rs []"

text \<open>\<^verbatim>\<open>LIMIT n\<close>: a negative \<open>n\<close> is no limit.\<close>

definition LIMIT :: "int \<Rightarrow> 'a list \<Rightarrow> 'a list" where
  "LIMIT n xs = (if n < 0 then xs else take (nat n) xs)"

text \<open>
  \<^verbatim>\<open>skillRecommend\<close>. \<^verbatim>\<open>if (project_type)\<close> takes the filtered query for a non-empty
  string only. There the WHERE clause drops the rows whose path does not match, a skill
  left with no row forms no group, and \<^verbatim>\<open>HAVING usage_count > 0\<close> is applied; the
  other query has neither clause.
\<close>

definition skillRecommend ::
  "database \<Rightarrow> string option \<Rightarrow> int option \<Rightarrow> Recommendation list" where
  "skillRecommend db project_type limit_opt =
     (let limit = (case limit_opt of None \<Rightarrow> 5 | Some n \<Rightarrow> n)
      in case or_null project_type of
           Some pt \<Rightarrow>
             (let groups = filter (\<lambda>(s, rows). rows \<noteq> [])
                    (map (\<lambda>s. (s, filter (path_like (''%'' @ pt @ ''%'')) (left_join_usage db s)))
                         (t_skills db));
                  having = filter (\<lambda>r. r_usage_count r > 0)
                    (map (\<lambda>(s, rows). aggregate s rows) groups)
              in LIMIT limit (order_by_rank having))
         | None \<Rightarrow>
             LIMIT limit (order_by_rank
               (map (\<lambda>s. aggregate s (left_join_usage db s)) (t_skills db))))"

text \<open>
  The usages of a skill that a recommendation is computed from: all of them when no
  \<^verbatim>\<open>project_type\<close> is given, and with one those whose \<^verbatim>\<open>project_path\<close> matches
  \<^verbatim>\<open>%project_type%\<close>. A usage is completed once \<open>skillUsageEnd\<close> has set its
  \<^verbatim>\<open>success\<close> flag.
\<close>

definition considered_usages :: "database \<Rightarrow> string option \<Rightarrow> Skill \<Rightarrow> SkillUsage list" where
  "considered_usages db project_type s =
     (case or_null project_type of
        None \<Rightarrow> filter (\<lambda>u. u_skill_name u = s_name s) (t_skill_usage db)
      | Some pt \<Rightarrow>
          filter (\<lambda>u. path_like (''%'' @ pt @ ''%'') (Some u))
            (filter (\<lambda>u. u_skill_name u = s_name s) (t_skill_usage db)))"

definition completed :: "SkillUsage \<Rightarrow> bool" where
  "completed u = (u_success u \<noteq> None)"

text \<open>The mean of the success flag over a non-empty list of usages.\<close>

definition mean_success :: "SkillUsage list \<Rightarrow> rat" where
  "mean_success us =
     of_nat (length (filter (\<lambda>u. u_success u = Some True) us)) / of_nat (length us)"

section \<open>Failure ledger (tools/failures.ts)\<close>



section \<open>JSON text\<close>

text \<open>
  The values \<^verbatim>\<open>JSON.stringify\<close> and \<^verbatim>\<open>JSON.parse\<close> exchange. Numbers are the
  integers (which JavaScript prints in plain decimal below \<open>10\<^sup>2\<^sup>1\<close>), strings are byte
  strings, and an object is the list of its properties in enumeration order.
\<close>

datatype json =
    JNull
  | JBool bool
  | JNum int
  | JStr string
  | JArr "json list"
  | JObj "(string \<times> json) list"

function show_nat :: "nat \<Rightarrow> string" where
  "show_nat n = (if n < 10 then [digit_char n] else show_nat (n div 10) @ [digit_char n])"
  by pat_completeness auto
termination
  by (relation "measure id") auto

declare show_nat.simps [simp del]

definition show_int :: "int \<Rightarrow> string" where
  "show_int i = (if i < 0 then ''-'' @ show_nat (nat (- i)) else show_nat (nat i))"

definition hex_char :: "nat \<Rightarrow> char" where
  "hex_char n = (if n mod 16 < 10 then char_of (48 + n mod 16) else char_of (87 + n mod 16))"

text \<open>
  \<^verbatim>\<open>QuoteJSONString\<close>: the quote, the backslash and the control characters are
  escaped, everything else is copied.
\<close>

definition escape_char :: "char \<Rightarrow> string" where
  "escape_char c =
     (let n = (of_char c :: nat) in
      if n = 34 then [CHR 0x5C, CHR 0x22]
      else if n = 92 then [CHR 0x5C, CHR 0x5C]
      else if n = 8 then [CHR 0x5C, CHR ''b'']
      else if n = 12 then [CHR 0x5C, CHR ''f'']
      else if n = 10 then [CHR 0x5C, CHR ''n'']
      else if n = 13 then [CHR 0x5C, CHR ''r'']
      else if n = 9 then [CHR 0x5C, CHR ''t'']
      else if n < 32 then [CHR 0x5C, CHR ''u'', CHR ''0'', CHR ''0'', hex_char (n div 16), hex_char n]
      else [c])"

definition quote :: "string \<Rightarrow> string" where
  "quote s = [CHR 0x22] @ concat (map escape_char s) @ [CHR 0x22]"

fun join_comma :: "string list \<Rightarrow> string" where
  "join_comma [] = []"
| "join_comma [x] = x"
| "join_comma (x # y # ys) = x @ '','' @ join_comma (y # ys)"

fun JSON_stringify :: "json \<Rightarrow> string" where
  "JSON_stringify JNull = ''null''"
| "JSON_stringify (JBool b) = (if b then ''true'' else ''false'')"
| "JSON_stringify (JNum n) = show_int n"
| "JSON_stringify (JStr s) = quote s"
| "JSON_stringify (JArr vs) = ''['' @ join_comma (map JSON_stringify vs) @ '']''"
| "JSON_stringify (JObj kvs) =
     ''{'' @ join_comma (map (\<lambda>kv. quote (fst kv) @ '':'' @ JSON_stringify (snd kv)) kvs) @ ''}''"

subsection \<open>Parsing\<close>

text \<open>
  \<^verbatim>\<open>JSON.parse\<close> as a recursive-descent parser; \<open>None\<close> is the SyntaxError it throws.
  A number with a fraction or an exponent and a \<^verbatim>\<open>\u\<close> escape above 7F have no value in
  \<open>json\<close> and are rejected here; \<open>JSON_stringify\<close> produces neither. The parser
  functions carry a recursion budget: every level of nesting consumes a character, so the
  length of the text is budget enough.
\<close>

definition is_ws :: "char \<Rightarrow> bool" where
  "is_ws c = (c = CHR '' '' \<or> c = CHR 0x09 \<or> c = CHR 0x0A \<or> c = CHR 0x0D)"

definition skip_ws :: "string \<Rightarrow> string" where
  "skip_ws s = dropWhile is_ws s"

definition is_digit :: "char \<Rightarrow> bool" where
  "is_digit c = (48 \<le> (of_char c :: nat) \<and> (of_char c :: nat) \<le> 57)"

definition read_nat :: "string \<Rightarrow> nat" where
  "read_nat ds = foldl (\<lambda>a c. 10 * a + (of_char c - 48)) 0 ds"

definition hex_val :: "char \<Rightarrow> nat option" where
  "hex_val c =
     (let n = (of_char c :: nat) in
      if 48 \<le> n \<and> n \<le> 57 then Some (n - 48)
      else if 97 \<le> n \<and> n \<le> 102 then Some (n - 87)
      else if 65 \<le> n \<and> n \<le> 70 then Some (n - 55)
      else None)"

definition hex4 :: "char \<Rightarrow> char \<Rightarrow> char \<Rightarrow> char \<Rightarrow> char option" where
  "hex4 a b c d =
     (case (hex_val a, hex_val b, hex_val c, hex_val d) of
        (Some w, Some x, Some y, Some z) \<Rightarrow>
          (let n = ((w * 16 + x) * 16 + y) * 16 + z in if n < 128 then Some (char_of n) else None)
      | _ \<Rightarrow> None)"

definition simple_escape :: "char \<Rightarrow> char option" where
  "simple_escape e =
     (if e = CHR 0x22 then Some (CHR 0x22)
      else if e = CHR 0x5C then Some (CHR 0x5C)
      else if e = CHR ''/'' then Some (CHR ''/'')
      else if e = CHR ''b'' then Some (CHR 0x08)
      else if e = CHR ''f'' then Some (CHR 0x0C)
      else if e = CHR ''n'' then Some (CHR 0x0A)
      else if e = CHR ''r'' then Some (CHR 0x0D)
      else if e = CHR ''t'' then Some (CHR 0x09)
      else None)"

definition prepend :: "char \<Rightarrow> (string \<times> string) option \<Rightarrow> (string \<times> string) option" where
  "prepend c r = (case r of None \<Rightarrow> None | Some (s, rest) \<Rightarrow> Some (c # s, rest))"

text \<open>The characters of a string literal after its opening quote, up to the closing one.\<close>

fun parse_chars :: "string \<Rightarrow> (string \<times> string) option"
  and parse_escape :: "string \<Rightarrow> (string \<times> string) option" where
  "parse_chars [] = None"
| "parse_chars (c # cs) =
     (if c = CHR 0x22 then Some ([], cs)
      else if c = CHR 0x5C then parse_escape cs
      else if (of_char c :: nat) < 32 then None
      else prepend c (parse_chars cs))"
| "parse_escape [] = None"
| "parse_escape (e # es) =
     (if e = CHR ''u'' then
        (case es of
           a # b # c # d # rest \<Rightarrow>
             (case hex4 a b c d of None \<Rightarrow> None | Some ch \<Rightarrow> prepend ch (parse_chars rest))
         | _ \<Rightarrow> None)
      else case simple_escape e of None \<Rightarrow> None | Some ch \<Rightarrow> prepend ch (parse_chars es))"

definition parse_number :: "string \<Rightarrow> (json \<times> string) option" where
  "parse_number s =
     (let neg = (s \<noteq> [] \<and> hd s = CHR ''-'');
          s1 = (if neg then tl s else s);
          ds = takeWhile is_digit s1;
          rest = dropWhile is_digit s1
      in if ds = [] then None
         else if 1 < length ds \<and> hd ds = CHR ''0'' then None
         else if rest \<noteq> [] \<and> (hd rest = CHR ''.'' \<or> hd rest = CHR ''e'' \<or> hd rest = CHR ''E'')
           then None
         else Some (JNum (if neg then - int (read_nat ds) else int (read_nat ds)), rest))"

definition strip_prefix :: "string \<Rightarrow> string \<Rightarrow> string option" where
  "strip_prefix p s = (if take (length p) s = p then Some (drop (length p) s) else None)"

fun parse_value :: "nat \<Rightarrow> string \<Rightarrow> (json \<times> string) option"
  and parse_elements :: "nat \<Rightarrow> string \<Rightarrow> (json list \<times> string) option"
  and parse_members :: "nat \<Rightarrow> string \<Rightarrow> ((string \<times> json) list \<times> string) option" where
  "parse_value 0 s = None"
| "parse_value (Suc n) s =
     (case skip_ws s of
        [] \<Rightarrow> None
      | c # cs \<Rightarrow>
          if c = CHR ''{'' then
            (case skip_ws cs of
               [] \<Rightarrow> None
             | d # ds \<Rightarrow>
                 if d = CHR ''}'' then Some (JObj [], ds)
                 else (case parse_members n (d # ds) of
                         None \<Rightarrow> None
                       | Some (ms, rest) \<Rightarrow> Some (JObj ms, rest)))
          else if c = CHR ''['' then
            (case skip_ws cs of
               [] \<Rightarrow> None
             | d # ds \<Rightarrow>
                 if d = CHR '']'' then Some (JArr [], ds)
                 else (case parse_elements n (d # ds) of
                         None \<Rightarrow> None
                       | Some (vs, rest) \<Rightarrow> Some (JArr vs, rest)))
          else if c = CHR 0x22 then
            (case parse_chars cs of None \<Rightarrow> None | Some (str, rest) \<Rightarrow> Some (JStr str, rest))
          else if c = CHR ''t'' then
            (case strip_prefix ''true'' (c # cs) of
               None \<Rightarrow> None | Some rest \<Rightarrow> Some (JBool True, rest))
          else if c = CHR ''f'' then
            (case strip_prefix ''false'' (c # cs) of
               None \<Rightarrow> None | Some rest \<Rightarrow> Some (JBool False, rest))
          else if c = CHR ''n'' then
            (case strip_prefix ''null'' (c # cs) of
               None \<Rightarrow> None | Some rest \<Rightarrow> Some (JNull, rest))
          else parse_number (c # cs))"
| "parse_elements 0 s = None"
| "parse_elements (Suc n) s =
     (case parse_value n s of
        None \<Rightarrow> None
      | Some (v, rest) \<Rightarrow>
          (case skip_ws rest of
             [] \<Rightarrow> None
           | c # cs \<Rightarrow>
               if c = CHR '']'' then Some ([v], cs)
               else if c = CHR '','' then
                 (case parse_elements n cs of
                    None \<Rightarrow> None
                  | Some (vs, rest') \<Rightarrow> Some (v # vs, rest'))
               else None))"
| "parse_members 0 s = None"
| "parse_members (Suc n) s =
     (case skip_ws s of
        [] \<Rightarrow> None
      | q # qs \<Rightarrow>
          if q \<noteq> CHR 0x22 then None
          else (case parse_chars qs of
                  None \<Rightarrow> None
                | Some (k, r1) \<Rightarrow>
                    (case skip_ws r1 of
                       [] \<Rightarrow> None
                     | c # r2 \<Rightarrow>
                         if c \<noteq> CHR '':'' then None
                         else (case parse_value n r2 of
                                 None \<Rightarrow> None
                               | Some (v, r3) \<Rightarrow>
                                   (case skip_ws r3 of
                                      [] \<Rightarrow> None
                                    | d # r4 \<Rightarrow>
                                        if d = CHR ''}'' then Some ([(k, v)], r4)
                                        else if d = CHR '','' then
                                          (case parse_members n r4 of
                                             None \<Rightarrow> None
                                           | Some (ms, r5) \<Rightarrow> Some ((k, v) # ms, r5))
                                        else None)))))"

definition JSON_parse :: "string \<Rightarrow> json option" where
  "JSON_parse s =
     (case parse_value (Suc (length s)) s of
        None \<Rightarrow> None
      | Some (v, rest) \<Rightarrow> if skip_ws rest = [] then Some v else None)"

subsection \<open>Measures for the round trip\<close>

text \<open>
  What may follow a value inside a JSON text (nothing, a comma or a closing bracket), and
  a bound on the recursion budget the parser needs for the text of a value.
\<close>

definition delimited :: "string \<Rightarrow> bool" where
  "delimited rest =
     (rest = [] \<or> hd rest = CHR '','' \<or> hd rest = CHR '']'' \<or> hd rest = CHR ''}'')"

definition member_text :: "string \<times> json \<Rightarrow> string" where
  "member_text kv = quote (fst kv) @ '':'' @ JSON_stringify (snd kv)"

fun budget :: "json \<Rightarrow> nat" where
  "budget (JArr vs) = Suc (sum_list (map (\<lambda>v. Suc (budget v)) vs))"
| "budget (JObj kvs) = Suc (sum_list (map (\<lambda>kv. Suc (budget (snd kv))) kvs))"
| "budget v = 1"

text \<open>The text of a value, followed by a delimiter, parses back to the value.\<close>

definition parses_back :: "json \<Rightarrow> bool" where
  "parses_back v =
     (\<forall>n rest. budget v \<le> n \<longrightarrow> delimited rest \<longrightarrow>
        parse_value n (JSON_stringify v @ rest) = Some (v, rest))"

section \<open>Memory store (tools/memory.ts)\<close>

record MemoryWriteParams =
  w_key :: string
  w_content :: string
  w_tags :: "string list option"
  w_scope :: "string option"
  w_source :: "string option"

text \<open>
  \<^verbatim>\<open>memoryWrite\<close>: the destructuring defaults apply to an omitted scope or source, and
  \<^verbatim>\<open>tags ? JSON.stringify(tags) : null\<close> stringifies every array, the empty one too.
  The statement inserts, or on a key conflict updates the existing row in place.
\<close>

definition memory_overwrite ::
  "int \<Rightarrow> string \<Rightarrow> string \<Rightarrow> string option \<Rightarrow> string \<Rightarrow> string \<Rightarrow> MemoryEntry \<Rightarrow> MemoryEntry" where
  "memory_overwrite now key content tagsJson scope source m =
     (if m_key m = key
      then m\<lparr>m_content := content, m_tags := tagsJson, m_scope := scope,
             m_source := Some source, m_updated_at := CURRENT_TIMESTAMP now\<rparr>
      else m)"

definition memoryWrite :: "int \<Rightarrow> database \<Rightarrow> MemoryWriteParams \<Rightarrow> string \<times> database" where
  "memoryWrite now db params =
     (let key = w_key params;
          content = w_content params;
          scope = (case w_scope params of None \<Rightarrow> ''global'' | Some x \<Rightarrow> x);
          source = (case w_source params of None \<Rightarrow> ''manual'' | Some x \<Rightarrow> x);
          tagsJson = map_option (\<lambda>tags. JSON_stringify (JArr (map JStr tags))) (w_tags params)
      in (key,
          if \<exists>m \<in> set (t_memory db). m_key m = key
          then db\<lparr>t_memory := map (memory_overwrite now key content tagsJson scope source)
                                  (t_memory db)\<rparr>
          else db\<lparr>t_memory := t_memory db @
                 [\<lparr>m_id = next_rowid (map m_id (t_memory db)), m_key = key,
                   m_content = content, m_tags = tagsJson, m_scope = scope,
                   m_source = Some source,
                   m_created_at = CURRENT_TIMESTAMP now,
                   m_updated_at = CURRENT_TIMESTAMP now\<rparr>]\<rparr>))"

definition memoryRead :: "database \<Rightarrow> string \<Rightarrow> MemoryEntry option" where
  "memoryRead db key = find (\<lambda>m. m_key m = key) (t_memory db)"

text \<open>A sequence of \<open>memoryWrite\<close> calls, each at its own clock reading.\<close>

fun memoryWrites :: "database \<Rightarrow> (int \<times> MemoryWriteParams) list \<Rightarrow> database" where
  "memoryWrites db [] = db"
| "memoryWrites db ((now, params) # rest) = memoryWrites (snd (memoryWrite now db params)) rest"






section \<open>Context store (tools/context.ts)\<close>

text \<open>
  \<^verbatim>\<open>contextSet\<close>. The value is stored as its JSON text. \<^verbatim>\<open>expires_in_minutes\<close> is
  tested for truthiness, so that an omitted one and 0 both give no expiry; otherwise the
  expiry is the ISO text of the clock plus that many minutes (whole minutes here), and
  \<^verbatim>\<open>toISOString\<close> throws before anything is written when that instant is no valid
  date. The statement inserts, or on a conflict of (session_id, key) updates value,
  skill_name and expires_at of the existing row.
\<close>

definition context_overwrite ::
  "string \<Rightarrow> string \<Rightarrow> string \<Rightarrow> string option \<Rightarrow> string option \<Rightarrow> ContextEntry
     \<Rightarrow> ContextEntry" where
  "context_overwrite session_id key valueJson skill_name expiresAt c =
     (if c_session_id c = session_id \<and> c_key c = key
      then c\<lparr>c_value := valueJson, c_skill_name := skill_name, c_expires_at := expiresAt\<rparr>
      else c)"

definition context_upsert ::
  "int \<Rightarrow> database \<Rightarrow> string \<Rightarrow> string \<Rightarrow> string \<Rightarrow> string option \<Rightarrow> string option
     \<Rightarrow> database" where
  "context_upsert now db session_id key valueJson skill_name expiresAt =
     (if \<exists>c \<in> set (t_context db). c_session_id c = session_id \<and> c_key c = key
      then db\<lparr>t_context :=
                map (context_overwrite session_id key valueJson skill_name expiresAt)
                    (t_context db)\<rparr>
      else db\<lparr>t_context := t_context db @
             [\<lparr>c_id = next_rowid (map c_id (t_context db)), c_session_id = session_id,
               c_key = key, c_value = valueJson, c_skill_name = skill_name,
               c_expires_at = expiresAt, c_created_at = CURRENT_TIMESTAMP now\<rparr>]\<rparr>)"

definition contextSet ::
  "int \<Rightarrow> database \<Rightarrow> string \<Rightarrow> string \<Rightarrow> json \<Rightarrow> string option \<Rightarrow> int option
     \<Rightarrow> (error + string) \<times> database" where
  "contextSet now db session_id key val skill_name expires_in_minutes =
     (let valueJson = JSON_stringify val
      in case (case expires_in_minutes of
                 None \<Rightarrow> Inr None
               | Some m \<Rightarrow>
                   if m = 0 then Inr None
                   else (case toISOString (now + m * 60 * 1000) of
                           Inl e \<Rightarrow> Inl e
                         | Inr text \<Rightarrow> Inr (Some text))) of
           Inl e \<Rightarrow> (Inl e, db)
         | Inr expiresAt \<Rightarrow>
             (Inr key,
              context_upsert now db session_id key valueJson (or_null skill_name) expiresAt))"

text \<open>
  The clean-up both readers run first:
  \<^verbatim>\<open>DELETE FROM context WHERE expires_at IS NOT NULL AND expires_at < CURRENT_TIMESTAMP\<close>.
  \<^verbatim>\<open>expires_at\<close> holds the text \<open>contextSet\<close> bound, \<^verbatim>\<open>CURRENT_TIMESTAMP\<close> is text
  as well, and neither looks like a number, so \<^verbatim>\<open><\<close> compares them as text.
\<close>

definition sql_expired :: "int \<Rightarrow> ContextEntry \<Rightarrow> bool" where
  "sql_expired now c =
     (case c_expires_at c of None \<Rightarrow> False | Some e \<Rightarrow> text_lt e (CURRENT_TIMESTAMP now))"

definition purge_expired :: "int \<Rightarrow> database \<Rightarrow> database" where
  "purge_expired now db = db\<lparr>t_context := filter (\<lambda>c. \<not> sql_expired now c) (t_context db)\<rparr>"

text \<open>
  \<^verbatim>\<open>contextGet\<close>: the clean-up, the SELECT of the pair, and \<^verbatim>\<open>JSON.parse\<close> of the
  stored text with the text itself as the value when parsing throws.
\<close>

definition contextGet :: "int \<Rightarrow> database \<Rightarrow> string \<Rightarrow> string \<Rightarrow> json option \<times> database" where
  "contextGet now db session_id key =
     (let db1 = purge_expired now db;
          result = find (\<lambda>c. c_session_id c = session_id \<and> c_key c = key) (t_context db1)
      in case result of
           None \<Rightarrow> (None, db1)
         | Some c \<Rightarrow>
             (case JSON_parse (c_value c) of
                Some v \<Rightarrow> (Some v, db1)
              | None \<Rightarrow> (Some (JStr (c_value c)), db1)))"

text \<open>
  \<^verbatim>\<open>contextList\<close>: the clean-up, then the rows of the session,
  \<^verbatim>\<open>ORDER BY created_at DESC\<close> (a stable insertion sort on the timestamp text).
\<close>

fun insert_newest :: "ContextEntry \<Rightarrow> ContextEntry list \<Rightarrow> ContextEntry list" where
  "insert_newest x [] = [x]"
| "insert_newest x (y # ys) =
     (if text_lt (c_created_at x) (c_created_at y) then y # insert_newest x ys
      else x # y # ys)"

definition contextList :: "int \<Rightarrow> database \<Rightarrow> string \<Rightarrow> ContextEntry list \<times> database" where
  "contextList now db session_id =
     (let db1 = purge_expired now db
      in (foldr insert_newest (filter (\<lambda>c. c_session_id c = session_id) (t_context db1)) [],
          db1))"


section \<open>Sample runs\<close>

text \<open>
  Concrete databases, built by running the tools from the empty database. The clock
  \<open>noon\<close> is 2026-11-03 12:00:00 UTC.
\<close>

definition noon :: int where
  "noon = 1793707200000"

definition sample_registered :: database where
  "sample_registered =
     snd (skillRegister noon empty_db ''skillA'' ''1.0'' ''plugin:a'' None None)"

definition sample_started :: database where
  "sample_started = snd (skillUsageStart noon sample_registered ''skillA'' None)"

text \<open>
  skillA used twice: once under \<^verbatim>\<open>/web/app\<close>, ended with success, and once under
  \<^verbatim>\<open>/cli/tool\<close>, still running.
\<close>

definition sample_two_paths :: database where
  "sample_two_paths =
     (let db1 = snd (skillUsageStart noon sample_registered ''skillA'' (Some ''/web/app''));
          db2 = snd (skillUsageEnd noon db1 1 True None None None)
      in snd (skillUsageStart noon db2 ''skillA'' (Some ''/cli/tool'')))"

definition sample_web_row :: Recommendation where
  "sample_web_row = hd (skillRecommend sample_two_paths (Some ''web'') None)"


text \<open>Two writes to one key, a minute apart, and a write to another key between them.\<close>

definition sample_writes :: "(int \<times> MemoryWriteParams) list" where
  "sample_writes =
     [(noon, \<lparr>w_key = ''tip:a'', w_content = ''first'', w_tags = Some [''t''],
              w_scope = None, w_source = None\<rparr>),
      (noon, \<lparr>w_key = ''tip:b'', w_content = ''other'', w_tags = None,
              w_scope = Some ''project:x'', w_source = Some ''evolve''\<rparr>)]"

definition sample_rewrite :: MemoryWriteParams where
  "sample_rewrite =
     \<lparr>w_key = ''tip:a'', w_content = ''second'', w_tags = None,
      w_scope = Some ''project:x'', w_source = Some ''evolve''\<rparr>"

definition sample_written :: database where
  "sample_written = memoryWrites empty_db sample_writes"

text \<open>\<^verbatim>\<open>set(s, k, 1, expires_in_minutes = -1)\<close> at noon on the empty database.\<close>

definition sample_expired :: database where
  "sample_expired = snd (contextSet noon empty_db ''s'' ''k'' (JNum 1) None (Some (- 1)))"

section \<open>Lookups in a table\<close>

lemma find_map_same:
  "(\<And>x. P (f x) = P x) \<Longrightarrow> find P (map f xs) = map_option f (find P xs)"
  by (induction xs) auto

lemma find_SomeD: "find P xs = Some x \<Longrightarrow> P x \<and> x \<in> set xs"
  by (induction xs) (auto split: if_splits)

lemma find_None_map_id:
  "find P xs = None \<Longrightarrow> map (\<lambda>x. if P x then f x else x) xs = xs"
  by (induction xs) (auto split: if_splits)

lemma next_rowid_fresh: "next_rowid ids \<notin> set ids"
proof
  assume a: "next_rowid ids \<in> set ids"
  then have ne: "ids \<noteq> []" by auto
  from a have "next_rowid ids \<le> Max (set ids)" by simp
  with ne show False by (simp add: next_rowid_def)
qed

lemma find_append_new:
  "\<forall>x \<in> set xs. \<not> P x \<Longrightarrow> P y \<Longrightarrow> find P (xs @ [y]) = Some y"
  by (induction xs) auto


section \<open>The sample runs, evaluated\<close>

lemma ts_noon: "CURRENT_TIMESTAMP noon = ''2026-11-03 12:00:00''"
  by code_simp

lemma sample_registered_eq:
  "sample_registered =
     \<lparr>t_memory = [],
      t_skills = [\<lparr>s_id = 1, s_name = ''skillA'', s_version = ''1.0'',
                   s_source = ''plugin:a'', s_project_path = None, s_installed_by = None,
                   s_installed_at = ''2026-11-03 12:00:00'', s_last_used_at = None,
                   s_use_count = 0\<rparr>],
      t_skill_usage = [], t_failures = [], t_context = []\<rparr>"
  by (simp add: sample_registered_def skillRegister_def empty_db_def ts_noon next_rowid_def
        skillGet_def)

lemma sample_started_eq:
  "sample_started =
     \<lparr>t_memory = [],
      t_skills = [\<lparr>s_id = 1, s_name = ''skillA'', s_version = ''1.0'',
                   s_source = ''plugin:a'', s_project_path = None, s_installed_by = None,
                   s_installed_at = ''2026-11-03 12:00:00'',
                   s_last_used_at = Some ''2026-11-03 12:00:00'', s_use_count = 0\<rparr>],
      t_skill_usage = [\<lparr>u_id = 1, u_skill_name = ''skillA'', u_project_path = None,
                   u_started_at = Some ''2026-11-03 12:00:00'', u_completed_at = None,
                   u_success = None, u_outcome = None, u_tokens_used = None,
                   u_notes = None\<rparr>],
      t_failures = [], t_context = []\<rparr>"
  by (simp add: sample_started_def sample_registered_eq skillUsageStart_def ts_noon
        next_rowid_def)

lemma sample_two_paths_eq:
  "sample_two_paths =
     \<lparr>t_memory = [],
      t_skills = [\<lparr>s_id = 1, s_name = ''skillA'', s_version = ''1.0'',
                   s_source = ''plugin:a'', s_project_path = None, s_installed_by = None,
                   s_installed_at = ''2026-11-03 12:00:00'',
                   s_last_used_at = Some ''2026-11-03 12:00:00'', s_use_count = 1\<rparr>],
      t_skill_usage =
        [\<lparr>u_id = 1, u_skill_name = ''skillA'', u_project_path = Some ''/web/app'',
          u_started_at = Some ''2026-11-03 12:00:00'',
          u_completed_at = Some ''2026-11-03 12:00:00'', u_success = Some True,
          u_outcome = None, u_tokens_used = None, u_notes = None\<rparr>,
         \<lparr>u_id = 2, u_skill_name = ''skillA'', u_project_path = Some ''/cli/tool'',
          u_started_at = Some ''2026-11-03 12:00:00'', u_completed_at = None,
          u_success = None, u_outcome = None, u_tokens_used = None, u_notes = None\<rparr>],
      t_failures = [], t_context = []\<rparr>"
  by (simp add: sample_two_paths_def sample_registered_eq skillUsageStart_def skillUsageEnd_def
        usage_done_def count_use_def ts_noon next_rowid_def)

lemma like_web_app: "like_match ''%web%'' ''/web/app''"
  by code_simp

lemma like_cli_tool: "\<not> like_match ''%web%'' ''/cli/tool''"
  by code_simp

lemma recommend_web_eq:
  "skillRecommend sample_two_paths (Some ''web'') None =
     [\<lparr>r_skill = \<lparr>s_id = 1, s_name = ''skillA'', s_version = ''1.0'',
                   s_source = ''plugin:a'', s_project_path = None, s_installed_by = None,
                   s_installed_at = ''2026-11-03 12:00:00'',
                   s_last_used_at = Some ''2026-11-03 12:00:00'', s_use_count = 1\<rparr>,
       r_success_rate = 1, r_usage_count = 1\<rparr>]"
  using like_web_app like_cli_tool
  by (simp add: skillRecommend_def sample_two_paths_eq left_join_usage_def aggregate_def
        AVG_def COUNT_u_id_def order_by_rank_def LIMIT_def)

lemma recommend_all_eq:
  "skillRecommend sample_two_paths None None =
     [\<lparr>r_skill = \<lparr>s_id = 1, s_name = ''skillA'', s_version = ''1.0'',
                   s_source = ''plugin:a'', s_project_path = None, s_installed_by = None,
                   s_installed_at = ''2026-11-03 12:00:00'',
                   s_last_used_at = Some ''2026-11-03 12:00:00'', s_use_count = 1\<rparr>,
       r_success_rate = 1 / 2, r_usage_count = 2\<rparr>]"
  by (simp add: skillRecommend_def sample_two_paths_eq left_join_usage_def aggregate_def
        AVG_def COUNT_u_id_def order_by_rank_def LIMIT_def)





lemma ts_noon_1min: "CURRENT_TIMESTAMP (noon + 60000) = ''2026-11-03 12:01:00''"
  by code_simp

lemma tags_t: "JSON_stringify (JArr (map JStr [''t''])) = [CHR ''['', CHR 0x22, CHR ''t'', CHR 0x22, CHR '']'']"
  by code_simp

lemma sample_written_eq:
  "sample_written =
     \<lparr>t_memory =
        [\<lparr>m_id = 1, m_key = ''tip:a'', m_content = ''first'',
          m_tags = Some [CHR ''['', CHR 0x22, CHR ''t'', CHR 0x22, CHR '']''],
          m_scope = ''global'', m_source = Some ''manual'',
          m_created_at = ''2026-11-03 12:00:00'', m_updated_at = ''2026-11-03 12:00:00''\<rparr>,
         \<lparr>m_id = 2, m_key = ''tip:b'', m_content = ''other'', m_tags = None,
          m_scope = ''project:x'', m_source = Some ''evolve'',
          m_created_at = ''2026-11-03 12:00:00'', m_updated_at = ''2026-11-03 12:00:00''\<rparr>],
      t_skills = [], t_skill_usage = [], t_failures = [], t_context = []\<rparr>"
  using tags_t
  by (simp add: sample_written_def sample_writes_def memoryWrite_def empty_db_def next_rowid_def
        ts_noon Let_def del: JSON_stringify.simps)


section \<open>Usage tracking\<close>

text \<open>The two statements of \<open>skillUsageEnd\<close>, by whether the usage row exists.\<close>

lemma skillUsageEnd_alt:
  "skillUsageEnd now db usage_id success outcome tokens_used notes =
    (case find (\<lambda>u. u_id u = usage_id) (t_skill_usage db) of
       None \<Rightarrow> (True, db)
     | Some u \<Rightarrow>
         (True, db\<lparr>t_skill_usage :=
                     map (usage_done now usage_id success outcome tokens_used notes)
                         (t_skill_usage db),
                   t_skills := map (count_use (u_skill_name u)) (t_skills db)\<rparr>))"
proof (cases "find (\<lambda>u. u_id u = usage_id) (t_skill_usage db)")
  case None
  have "find (\<lambda>u. u_id u = usage_id)
          (map (usage_done now usage_id success outcome tokens_used notes) (t_skill_usage db))
        = None"
    using None by (subst find_map_same) (auto simp: usage_done_def)
  moreover have "map (usage_done now usage_id success outcome tokens_used notes)
                   (t_skill_usage db) = t_skill_usage db"
    using find_None_map_id[OF None] unfolding usage_done_def[abs_def] by simp
  ultimately show ?thesis using None
    by (simp add: skillUsageEnd_def)
next
  case (Some u)
  have "find (\<lambda>u. u_id u = usage_id)
          (map (usage_done now usage_id success outcome tokens_used notes) (t_skill_usage db))
        = Some (usage_done now usage_id success outcome tokens_used notes u)"
    using Some by (subst find_map_same) (auto simp: usage_done_def)
  moreover have "u_skill_name (usage_done now usage_id success outcome tokens_used notes u)
                 = u_skill_name u"
    by (simp add: usage_done_def)
  ultimately show ?thesis using Some
    by (simp add: skillUsageEnd_def)
qed

lemma skillGet_count_use:
  "skillGet (db\<lparr>t_skill_usage := us, t_skills := map (count_use n) (t_skills db)\<rparr>) m
     = map_option (count_use n) (skillGet db m)"
  unfolding skillGet_def by (simp, subst find_map_same) (auto simp: count_use_def)

text \<open>
  An id returned by \<open>skillUsageStart\<close> names the row just inserted, which references the
  skill the call was made for.
\<close>

lemma skillUsageStart_row:
  assumes "skillUsageStart now db skill_name project_path = (Inr usage_id, db')"
  shows "\<exists>u. find (\<lambda>u. u_id u = usage_id) (t_skill_usage db') = Some u
             \<and> u_skill_name u = skill_name \<and> u_completed_at u = None \<and> u_success u = None"
proof -
  from assms have reg: "\<exists>s \<in> set (t_skills db). s_name s = skill_name"
    by (auto simp: skillUsageStart_def split: if_splits)
  from assms reg have uid: "usage_id = next_rowid (map u_id (t_skill_usage db))"
    by (auto simp: skillUsageStart_def Let_def)
  from assms reg have us: "t_skill_usage db' = t_skill_usage db @
       [\<lparr>u_id = usage_id, u_skill_name = skill_name, u_project_path = or_null project_path,
         u_started_at = Some (CURRENT_TIMESTAMP now), u_completed_at = None, u_success = None,
         u_outcome = None, u_tokens_used = None, u_notes = None\<rparr>]"
    by (auto simp: skillUsageStart_def Let_def)
  have "\<forall>x \<in> set (t_skill_usage db). u_id x \<noteq> usage_id"
    using next_rowid_fresh[of "map u_id (t_skill_usage db)"] uid
    by (metis image_eqI list.set_map)
  then show ?thesis
    unfolding us by (subst find_append_new) auto
qed

text \<open>A successful \<open>skillUsageStart\<close> leaves the skill it was called for registered.\<close>

lemma skillUsageStart_skill:
  assumes "skillUsageStart now db skill_name project_path = (Inr usage_id, db')"
  shows "\<exists>s. skillGet db' skill_name = Some s"
proof -
  from assms have reg: "\<exists>s \<in> set (t_skills db). s_name s = skill_name"
    by (auto simp: skillUsageStart_def split: if_splits)
  let ?touch = "\<lambda>s. if s_name s = skill_name
                     then s\<lparr>s_last_used_at := Some (CURRENT_TIMESTAMP now)\<rparr> else s"
  from assms reg have sk: "t_skills db' = map ?touch (t_skills db)"
    by (auto simp: skillUsageStart_def Let_def)
  from reg obtain s where "find (\<lambda>s. s_name s = skill_name) (t_skills db) = Some s"
    by (cases "find (\<lambda>s. s_name s = skill_name) (t_skills db)") (auto simp: find_None_iff)
  moreover have "find (\<lambda>s. s_name s = skill_name) (map ?touch (t_skills db))
        = map_option ?touch (find (\<lambda>s. s_name s = skill_name) (t_skills db))"
    by (rule find_map_same) simp
  ultimately show ?thesis
    unfolding skillGet_def sk by simp
qed

text \<open>What one call of \<open>skillUsageEnd\<close> and a second one do, by whether the row exists.\<close>

lemma skillUsageEnd_row:
  "(find (\<lambda>u. u_id u = usage_id) (t_skill_usage db) = None \<longrightarrow>
      skillUsageEnd now db usage_id ok oc tk nt = (True, db))
   \<and> (\<forall>u s. find (\<lambda>u. u_id u = usage_id) (t_skill_usage db) = Some u
            \<and> skillGet db (u_skill_name u) = Some s \<longrightarrow>
        fst (skillUsageEnd now db usage_id ok oc tk nt) = True
        \<and> skillGet (snd (skillUsageEnd now db usage_id ok oc tk nt)) (u_skill_name u)
            = Some (s\<lparr>s_use_count := s_use_count s + 1\<rparr>)
        \<and> (\<forall>m. m \<noteq> u_skill_name u \<longrightarrow>
              skillGet (snd (skillUsageEnd now db usage_id ok oc tk nt)) m = skillGet db m)
        \<and> skillGet (snd (skillUsageEnd now' (snd (skillUsageEnd now db usage_id ok oc tk nt))
                            usage_id ok' oc' tk' nt')) (u_skill_name u)
            = Some (s\<lparr>s_use_count := s_use_count s + 2\<rparr>))"
proof (intro conjI allI impI)
  assume "find (\<lambda>u. u_id u = usage_id) (t_skill_usage db) = None"
  then show "skillUsageEnd now db usage_id ok oc tk nt = (True, db)"
    by (simp add: skillUsageEnd_alt)
next
  fix u s
  assume a: "find (\<lambda>u. u_id u = usage_id) (t_skill_usage db) = Some u
            \<and> skillGet db (u_skill_name u) = Some s"
  let ?db1 = "snd (skillUsageEnd now db usage_id ok oc tk nt)"
  have db1: "?db1 = db\<lparr>t_skill_usage :=
                         map (usage_done now usage_id ok oc tk nt) (t_skill_usage db),
                       t_skills := map (count_use (u_skill_name u)) (t_skills db)\<rparr>"
    using a by (simp add: skillUsageEnd_alt)
  show "fst (skillUsageEnd now db usage_id ok oc tk nt) = True"
    using a by (simp add: skillUsageEnd_alt)
  have g1: "skillGet ?db1 m = map_option (count_use (u_skill_name u)) (skillGet db m)" for m
    unfolding db1 by (rule skillGet_count_use)
  have named: "s_name s = u_skill_name u"
    using a find_SomeD[of "\<lambda>x. s_name x = u_skill_name u" "t_skills db" s]
    by (simp add: skillGet_def)
  show s1: "skillGet ?db1 (u_skill_name u) = Some (s\<lparr>s_use_count := s_use_count s + 1\<rparr>)"
    using a named unfolding g1 by (simp add: count_use_def)
  { fix m assume "m \<noteq> u_skill_name u"
    then show "skillGet ?db1 m = skillGet db m"
      unfolding g1
      by (cases "skillGet db m") (auto simp: count_use_def skillGet_def dest: find_SomeD) }
  have f1: "find (\<lambda>u. u_id u = usage_id) (t_skill_usage ?db1)
       = Some (usage_done now usage_id ok oc tk nt u)"
    unfolding db1 using a by (simp, subst find_map_same) (auto simp: usage_done_def)
  have n1: "u_skill_name (usage_done now usage_id ok oc tk nt u) = u_skill_name u"
    by (simp add: usage_done_def)
  let ?db2 = "snd (skillUsageEnd now' ?db1 usage_id ok' oc' tk' nt')"
  have db2: "?db2 = ?db1\<lparr>t_skill_usage :=
                           map (usage_done now' usage_id ok' oc' tk' nt') (t_skill_usage ?db1),
                         t_skills := map (count_use (u_skill_name u)) (t_skills ?db1)\<rparr>"
    using f1 n1 by (simp add: skillUsageEnd_alt)
  have "skillGet ?db2 (u_skill_name u)
        = map_option (count_use (u_skill_name u)) (skillGet ?db1 (u_skill_name u))"
    by (subst db2) (rule skillGet_count_use)
  also have "\<dots> = Some (s\<lparr>s_use_count := s_use_count s + 2\<rparr>)"
    using named unfolding s1 by (simp add: count_use_def)
  finally show "skillGet ?db2 (u_skill_name u) = Some (s\<lparr>s_use_count := s_use_count s + 2\<rparr>)" .
qed

text \<open>
  Claim C1, as the code has it. \<open>skillUsageEnd\<close> with an id for which no usage row exists
  returns success and leaves the database as it was. With an id for which a usage row
  exists it returns success and adds exactly one to the \<open>use_count\<close> of the skill that row
  references, and to no other skill's; it does so on every such call, so that a second
  call with the same id leaves the counter two above its starting value. In particular,
  for an id that \<open>skillUsageStart\<close> has just returned, the first \<open>skillUsageEnd\<close> adds
  one to the counter of the skill the usage was started for, and a second one adds one
  more.
\<close>

theorem skillUsageEnd_use_count:
  "((find (\<lambda>u. u_id u = usage_id) (t_skill_usage db) = None \<longrightarrow>
       skillUsageEnd now db usage_id ok oc tk nt = (True, db))
    \<and> (\<forall>u s. find (\<lambda>u. u_id u = usage_id) (t_skill_usage db) = Some u
             \<and> skillGet db (u_skill_name u) = Some s \<longrightarrow>
         fst (skillUsageEnd now db usage_id ok oc tk nt) = True
         \<and> skillGet (snd (skillUsageEnd now db usage_id ok oc tk nt)) (u_skill_name u)
             = Some (s\<lparr>s_use_count := s_use_count s + 1\<rparr>)
         \<and> (\<forall>m. m \<noteq> u_skill_name u \<longrightarrow>
               skillGet (snd (skillUsageEnd now db usage_id ok oc tk nt)) m = skillGet db m)
         \<and> skillGet (snd (skillUsageEnd now' (snd (skillUsageEnd now db usage_id ok oc tk nt))
                             usage_id ok' oc' tk' nt')) (u_skill_name u)
             = Some (s\<lparr>s_use_count := s_use_count s + 2\<rparr>)))
   \<and> (\<forall>db0. skillUsageStart now0 db0 name pp = (Inr usage_id, db) \<longrightarrow>
        (\<exists>s. skillGet db name = Some s
           \<and> skillGet (snd (skillUsageEnd now db usage_id ok oc tk nt)) name
               = Some (s\<lparr>s_use_count := s_use_count s + 1\<rparr>)
           \<and> skillGet (snd (skillUsageEnd now' (snd (skillUsageEnd now db usage_id ok oc tk nt))
                               usage_id ok' oc' tk' nt')) name
               = Some (s\<lparr>s_use_count := s_use_count s + 2\<rparr>)))"
proof (rule conjI)
  show "(find (\<lambda>u. u_id u = usage_id) (t_skill_usage db) = None \<longrightarrow>
      skillUsageEnd now db usage_id ok oc tk nt = (True, db))
   \<and> (\<forall>u s. find (\<lambda>u. u_id u = usage_id) (t_skill_usage db) = Some u
            \<and> skillGet db (u_skill_name u) = Some s \<longrightarrow>
        fst (skillUsageEnd now db usage_id ok oc tk nt) = True
        \<and> skillGet (snd (skillUsageEnd now db usage_id ok oc tk nt)) (u_skill_name u)
            = Some (s\<lparr>s_use_count := s_use_count s + 1\<rparr>)
        \<and> (\<forall>m. m \<noteq> u_skill_name u \<longrightarrow>
              skillGet (snd (skillUsageEnd now db usage_id ok oc tk nt)) m = skillGet db m)
        \<and> skillGet (snd (skillUsageEnd now' (snd (skillUsageEnd now db usage_id ok oc tk nt))
                            usage_id ok' oc' tk' nt')) (u_skill_name u)
            = Some (s\<lparr>s_use_count := s_use_count s + 2\<rparr>))"
    by (rule skillUsageEnd_row)
next
  show "\<forall>db0. skillUsageStart now0 db0 name pp = (Inr usage_id, db) \<longrightarrow>
        (\<exists>s. skillGet db name = Some s
           \<and> skillGet (snd (skillUsageEnd now db usage_id ok oc tk nt)) name
               = Some (s\<lparr>s_use_count := s_use_count s + 1\<rparr>)
           \<and> skillGet (snd (skillUsageEnd now' (snd (skillUsageEnd now db usage_id ok oc tk nt))
                               usage_id ok' oc' tk' nt')) name
               = Some (s\<lparr>s_use_count := s_use_count s + 2\<rparr>))"
  proof (intro allI impI)
  fix db0 :: database
  assume st: "skillUsageStart now0 db0 name pp = (Inr usage_id, db)"
  from skillUsageStart_row[OF st] obtain u where
    u: "find (\<lambda>u. u_id u = usage_id) (t_skill_usage db) = Some u" "u_skill_name u = name"
    by blast
  from skillUsageStart_skill[OF st] obtain s where s: "skillGet db name = Some s"
    by blast
  from skillUsageEnd_row[of usage_id db now ok oc tk nt now' ok' oc' tk' nt'] u s
  show "\<exists>s. skillGet db name = Some s
           \<and> skillGet (snd (skillUsageEnd now db usage_id ok oc tk nt)) name
               = Some (s\<lparr>s_use_count := s_use_count s + 1\<rparr>)
           \<and> skillGet (snd (skillUsageEnd now' (snd (skillUsageEnd now db usage_id ok oc tk nt))
                               usage_id ok' oc' tk' nt')) name
               = Some (s\<lparr>s_use_count := s_use_count s + 2\<rparr>)"
    by auto
  qed
qed

text \<open>
  The theorem at the usage that \<open>skillUsageStart\<close> opened for skillA (id 1), and at
  the id 7, for which there is no row.
\<close>

theorem skillUsageEnd_use_count_witness:
  "skillUsageStart noon sample_registered ''skillA'' None = (Inr 1, sample_started)
   \<and> map_option u_skill_name (find (\<lambda>u. u_id u = 1) (t_skill_usage sample_started))
       = Some ''skillA''
   \<and> map_option s_use_count (skillGet sample_started ''skillA'') = Some 0
   \<and> map_option s_use_count
        (skillGet (snd (skillUsageEnd noon sample_started 1 True None None None)) ''skillA'')
       = Some 1
   \<and> map_option s_use_count
        (skillGet (snd (skillUsageEnd noon
            (snd (skillUsageEnd noon sample_started 1 True None None None))
            1 True None None None)) ''skillA'')
       = Some 2
   \<and> find (\<lambda>u. u_id u = 7) (t_skill_usage sample_started) = None
   \<and> skillUsageEnd noon sample_started 7 True None None None = (True, sample_started)"
proof -
  have start: "skillUsageStart noon sample_registered ''skillA'' None = (Inr 1, sample_started)"
    unfolding sample_started_eq
    by (simp add: sample_registered_eq skillUsageStart_def next_rowid_def ts_noon)
  have h1: "map_option u_skill_name (find (\<lambda>u. u_id u = 1) (t_skill_usage sample_started))
            = Some ''skillA''"
    by (simp add: sample_started_eq)
  have c0: "map_option s_use_count (skillGet sample_started ''skillA'') = Some 0"
    by (simp add: sample_started_eq skillGet_def)
  have h7: "find (\<lambda>u. u_id u = 7) (t_skill_usage sample_started) = None"
    by (simp add: sample_started_eq)
  note S = skillUsageEnd_use_count
             [of 1 sample_started noon True None None None noon True None None None
                 noon "''skillA''" None,
              THEN conjunct2, rule_format, OF start]
  from S c0 have
    "map_option s_use_count
        (skillGet (snd (skillUsageEnd noon sample_started 1 True None None None)) ''skillA'')
       = Some 1"
    and
    "map_option s_use_count
        (skillGet (snd (skillUsageEnd noon
            (snd (skillUsageEnd noon sample_started 1 True None None None))
            1 True None None None)) ''skillA'')
       = Some 2"
    by auto
  moreover have "skillUsageEnd noon sample_started 7 True None None None
                 = (True, sample_started)"
    using skillUsageEnd_use_count
            [of 7 sample_started noon True None None None noon True None None None,
             THEN conjunct1] h7
    by blast
  ultimately show ?thesis
    using start h1 c0 h7 by simp
qed

text \<open>
  Against the wording of C1 that a repeated \<open>skillUsageEnd\<close> leaves the counter alone: the
  usage opened for skillA is ended twice, and \<open>use_count\<close> goes 0, 1, 2.
\<close>

theorem skillUsageEnd_twice_counterexample:
  "map_option s_use_count (skillGet sample_started ''skillA'') = Some 0
   \<and> map_option s_use_count
        (skillGet (snd (skillUsageEnd noon sample_started 1 True None None None)) ''skillA'')
       = Some 1
   \<and> map_option s_use_count
        (skillGet (snd (skillUsageEnd (noon + 1000)
            (snd (skillUsageEnd noon sample_started 1 True None None None))
            1 True None None None)) ''skillA'')
       = Some 2"
  by (simp add: sample_started_eq skillUsageEnd_def skillGet_def usage_done_def count_use_def)

text \<open>
  Claim C9. When no skill is registered under the name, \<open>skillUsageStart\<close> fails with the
  foreign-key constraint error and the database is the one it was given: no usage row is
  added and no \<open>last_used_at\<close> is touched.
\<close>

theorem skillUsageStart_unregistered:
  "skillGet db skill_name = None \<Longrightarrow>
     skillUsageStart now db skill_name project_path
       = (Inl (SqliteError SQLITE_CONSTRAINT_FOREIGNKEY), db)"
  by (auto simp: skillGet_def skillUsageStart_def find_None_iff)

theorem skillUsageStart_unregistered_witness:
  "skillGet sample_registered ''skillB'' = None
   \<and> skillUsageStart noon sample_registered ''skillB'' (Some ''/web/app'')
       = (Inl (SqliteError SQLITE_CONSTRAINT_FOREIGNKEY), sample_registered)"
proof -
  have h: "skillGet sample_registered ''skillB'' = None"
    by (simp add: sample_registered_eq skillGet_def)
  from skillUsageStart_unregistered[OF h] h show ?thesis
    by simp
qed

section \<open>Recommendation\<close>

lemma set_insert_ranked: "set (insert_ranked x xs) = insert x (set xs)"
  by (induction xs) auto

lemma set_order_by_rank: "set (order_by_rank rs) = set rs"
  unfolding order_by_rank_def by (induction rs) (auto simp: set_insert_ranked)

lemma set_LIMIT: "set (LIMIT n xs) \<subseteq> set xs"
  by (auto simp: LIMIT_def dest: in_set_takeD)




lemma sum_success_case:
  "(\<Sum>x\<leftarrow>us. if u_success x = Some True then 1 else 0)
     = (of_nat (length (filter (\<lambda>u. u_success u = Some True) us)) :: rat)"
  by (induction us) auto

lemma filter_path_like_left_join:
  "filter (path_like pat) (left_join_usage db s)
     = map Some (filter (\<lambda>u. path_like pat (Some u))
         (filter (\<lambda>u. u_skill_name u = s_name s) (t_skill_usage db)))"
proof (cases "filter (\<lambda>u. u_skill_name u = s_name s) (t_skill_usage db) = []")
  case True
  then show ?thesis by (simp add: left_join_usage_def)
next
  case False
  then show ?thesis by (simp add: left_join_usage_def filter_map comp_def)
qed

lemma aggregate_Some:
  "aggregate s (map Some us) =
     \<lparr>r_skill = s,
      r_success_rate = (if us = [] then 0 else mean_success us),
      r_usage_count = int (length us)\<rparr>"
  by (simp add: aggregate_def AVG_def COUNT_u_id_def sum_success_case mean_success_def
        filter_map comp_def)

lemma aggregate_left_join:
  "aggregate s (left_join_usage db s) =
     (let us = filter (\<lambda>u. u_skill_name u = s_name s) (t_skill_usage db) in
      \<lparr>r_skill = s,
       r_success_rate = (if us = [] then 0 else mean_success us),
       r_usage_count = int (length us)\<rparr>)"
proof (cases "filter (\<lambda>u. u_skill_name u = s_name s) (t_skill_usage db) = []")
  case True
  then show ?thesis
    by (simp add: left_join_usage_def aggregate_def AVG_def COUNT_u_id_def)
next
  case False
  then have "left_join_usage db s
             = map Some (filter (\<lambda>u. u_skill_name u = s_name s) (t_skill_usage db))"
    by (simp add: left_join_usage_def)
  then show ?thesis using False by (simp add: aggregate_Some Let_def)
qed

lemma in_LIMIT_order: "r \<in> set (LIMIT n (order_by_rank rs)) \<Longrightarrow> r \<in> set rs"
  using set_LIMIT[of n "order_by_rank rs"] by (auto simp: set_order_by_rank)

text \<open>Every recommendation is the aggregate of a registered skill over its considered usages.\<close>

lemma skillRecommend_row:
  assumes "r \<in> set (skillRecommend db project_type limit_opt)"
  shows "\<exists>s \<in> set (t_skills db).
           r = \<lparr>r_skill = s,
                r_success_rate = (if considered_usages db project_type s = [] then 0
                                  else mean_success (considered_usages db project_type s)),
                r_usage_count = int (length (considered_usages db project_type s))\<rparr>
           \<and> (or_null project_type \<noteq> None \<longrightarrow> considered_usages db project_type s \<noteq> [])"
proof (cases "or_null project_type")
  case None
  let ?lim = "case limit_opt of None \<Rightarrow> 5 | Some n \<Rightarrow> n"
  have "skillRecommend db project_type limit_opt = LIMIT ?lim (order_by_rank
        (map (\<lambda>s. aggregate s (left_join_usage db s)) (t_skills db)))"
    using None by (simp add: skillRecommend_def)
  with assms have "r \<in> set (LIMIT ?lim (order_by_rank
        (map (\<lambda>s. aggregate s (left_join_usage db s)) (t_skills db))))"
    by simp
  then have "r \<in> set (map (\<lambda>s. aggregate s (left_join_usage db s)) (t_skills db))"
    by (rule in_LIMIT_order)
  then obtain s where "s \<in> set (t_skills db)" "r = aggregate s (left_join_usage db s)"
    by auto
  then show ?thesis using None
    by (intro bexI[of _ s]) (simp_all add: aggregate_left_join considered_usages_def Let_def)
next
  case (Some pt)
  let ?lim = "case limit_opt of None \<Rightarrow> 5 | Some n \<Rightarrow> n"
  let ?pat = "''%'' @ pt @ ''%''"
  let ?groups = "filter (\<lambda>(s, rows). rows \<noteq> [])
                    (map (\<lambda>s. (s, filter (path_like ?pat) (left_join_usage db s)))
                         (t_skills db))"
  have "skillRecommend db project_type limit_opt = LIMIT ?lim (order_by_rank
                    (filter (\<lambda>r. r_usage_count r > 0)
                    (map (\<lambda>(s, rows). aggregate s rows) ?groups)))"
    using Some by (simp add: skillRecommend_def Let_def)
  with assms have "r \<in> set (LIMIT ?lim (order_by_rank
                    (filter (\<lambda>r. r_usage_count r > 0)
                    (map (\<lambda>(s, rows). aggregate s rows) ?groups))))"
    by simp
  then have "r \<in> set (filter (\<lambda>r. r_usage_count r > 0)
                    (map (\<lambda>(s, rows). aggregate s rows) ?groups))"
    by (rule in_LIMIT_order)
  then have "r \<in> set (map (\<lambda>(s, rows). aggregate s rows) ?groups)"
    by simp
  then obtain g where g: "g \<in> set ?groups" and rg: "r = (\<lambda>(s, rows). aggregate s rows) g"
    by (auto simp only: set_map)
  obtain s rows where g_eq: "g = (s, rows)" by (cases g)
  from g g_eq have s: "s \<in> set (t_skills db)"
     and rows: "rows = filter (path_like ?pat) (left_join_usage db s)"
     and ne: "rows \<noteq> []"
    by auto
  from rg g_eq have r: "r = aggregate s rows" by simp
  have cu: "considered_usages db project_type s
              = filter (\<lambda>u. path_like ?pat (Some u))
                  (filter (\<lambda>u. u_skill_name u = s_name s) (t_skill_usage db))"
    using Some by (simp add: considered_usages_def)
  have rows': "rows = map Some (considered_usages db project_type s)"
    unfolding rows cu by (rule filter_path_like_left_join)
  with ne have cne: "considered_usages db project_type s \<noteq> []" by auto
  show ?thesis
    using s cne unfolding r rows' aggregate_Some
    by (intro bexI[of _ s]) simp_all
qed



text \<open>
  Claim C2, as the code has it. For every row \<open>skillRecommend\<close> returns,
  \<open>usage_count\<close> is the number of the skill's considered usages, completed or not: all
  of its usages when no \<open>project_type\<close> is given, those with a matching
  \<open>project_path\<close> otherwise. \<open>success_rate\<close> is 0 when none of the considered usages
  is completed, and when all of them are completed it is the mean of their success flags.
\<close>

theorem skillRecommend_aggregates:
  "r \<in> set (skillRecommend db project_type limit_opt) \<Longrightarrow>
     (let us = considered_usages db project_type (r_skill r) in
      r_usage_count r = int (length us)
      \<and> (filter completed us = [] \<longrightarrow> r_success_rate r = 0)
      \<and> (us \<noteq> [] \<and> (\<forall>u \<in> set us. completed u) \<longrightarrow> r_success_rate r = mean_success us))"
proof -
  assume "r \<in> set (skillRecommend db project_type limit_opt)"
  from skillRecommend_row[OF this] obtain s where
    r: "r = \<lparr>r_skill = s,
             r_success_rate = (if considered_usages db project_type s = [] then 0
                               else mean_success (considered_usages db project_type s)),
             r_usage_count = int (length (considered_usages db project_type s))\<rparr>"
    by blast
  have z: "mean_success us = 0" if "filter completed us = []" for us
  proof -
    from that have "filter (\<lambda>u. u_success u = Some True) us = []"
      by (auto simp: filter_empty_conv completed_def)
    then show ?thesis by (simp add: mean_success_def)
  qed
  show ?thesis
    unfolding r Let_def using z by simp
qed

text \<open>
  The theorem at the one row recommended for \<open>project_type = web\<close>: skillA, whose only
  matching usage is completed.
\<close>

theorem skillRecommend_aggregates_witness:
  "sample_web_row \<in> set (skillRecommend sample_two_paths (Some ''web'') None)
   \<and> length (considered_usages sample_two_paths (Some ''web'') (r_skill sample_web_row)) = 1
   \<and> list_all completed
        (considered_usages sample_two_paths (Some ''web'') (r_skill sample_web_row))
   \<and> r_usage_count sample_web_row = 1
   \<and> r_success_rate sample_web_row
       = mean_success (considered_usages sample_two_paths (Some ''web'') (r_skill sample_web_row))"
proof -
  have h: "sample_web_row \<in> set (skillRecommend sample_two_paths (Some ''web'') None)"
    by (simp add: sample_web_row_def recommend_web_eq)
  have us: "considered_usages sample_two_paths (Some ''web'') (r_skill sample_web_row)
            = [hd (t_skill_usage sample_two_paths)]"
    unfolding sample_web_row_def recommend_web_eq
    using like_web_app like_cli_tool
    by (simp add: considered_usages_def sample_two_paths_eq)
  have c: "completed (hd (t_skill_usage sample_two_paths))"
    by (simp add: sample_two_paths_eq completed_def)
  from skillRecommend_aggregates[OF h] us c show ?thesis
    using h by (simp add: Let_def)
qed


text \<open>
  Against the wording of C2. skillA has two usages, the first completed with success and
  the second not completed. With \<open>project_type = web\<close> it is reported with
  \<open>usage_count = 1\<close>, not 2; and without a filter its \<open>success_rate\<close> is 1/2,
  although the mean over its completed usages is 1: the running usage is averaged in as
  a failure.
\<close>

theorem skillRecommend_aggregates_counterexample:
  "map u_skill_name (t_skill_usage sample_two_paths) = [''skillA'', ''skillA'']
   \<and> map u_success (t_skill_usage sample_two_paths) = [Some True, None]
   \<and> map r_usage_count (skillRecommend sample_two_paths (Some ''web'') None) = [1]
   \<and> map r_success_rate (skillRecommend sample_two_paths None None) = [1 / 2]"
  unfolding recommend_web_eq recommend_all_eq
  by (simp add: sample_two_paths_eq)





section \<open>Failure ledger\<close>






section \<open>Memory store\<close>

lemma memoryWrite_keys:
  "map m_key (t_memory (snd (memoryWrite now db params))) =
     (if w_key params \<in> set (map m_key (t_memory db)) then map m_key (t_memory db)
      else map m_key (t_memory db) @ [w_key params])"
proof -
  have "map (m_key \<circ> memory_overwrite now k c t sc so) ms = map m_key ms" for k c t sc so ms
    by (induction ms) (auto simp: memory_overwrite_def)
  moreover have "(\<exists>m \<in> set (t_memory db). m_key m = w_key params)
                 = (w_key params \<in> set (map m_key (t_memory db)))"
    by (simp add: image_iff) metis
  ultimately show ?thesis
    by (simp add: memoryWrite_def Let_def del: set_map)
qed

lemma memoryWrite_distinct:
  "distinct (map m_key (t_memory db)) \<Longrightarrow>
   distinct (map m_key (t_memory (snd (memoryWrite now db params))))"
  unfolding memoryWrite_keys by auto

lemma memoryWrite_key_set:
  "set (map m_key (t_memory (snd (memoryWrite now db params))))
     = insert (w_key params) (set (map m_key (t_memory db)))"
  unfolding memoryWrite_keys by auto

lemma memoryWrites_distinct:
  "distinct (map m_key (t_memory db)) \<Longrightarrow> distinct (map m_key (t_memory (memoryWrites db ws)))"
proof (induction ws arbitrary: db)
  case Nil
  then show ?case by simp
next
  case (Cons w ws)
  obtain now params where w: "w = (now, params)" by (cases w)
  show ?case
    unfolding w by (simp, rule Cons.IH, rule memoryWrite_distinct, rule Cons.prems)
qed

lemma memoryWrites_key_set:
  "set (map m_key (t_memory (memoryWrites db ws)))
     = set (map (\<lambda>w. w_key (snd w)) ws) \<union> set (map m_key (t_memory db))"
proof (induction ws arbitrary: db)
  case Nil
  then show ?case by simp
next
  case (Cons w ws)
  obtain now params where w: "w = (now, params)" by (cases w)
  show ?case
    unfolding w by (simp add: Cons.IH memoryWrite_key_set del: set_map)
qed

lemma one_row_per_key:
  "distinct (map f xs) \<Longrightarrow> k \<in> set (map f xs) \<Longrightarrow> length (filter (\<lambda>x. f x = k) xs) = 1"
proof (induction xs)
  case Nil
  then show ?case by simp
next
  case (Cons x xs)
  show ?case
  proof (cases "f x = k")
    case True
    with Cons.prems have "\<forall>y \<in> set xs. f y \<noteq> k" by (auto simp: image_iff)
    then have "filter (\<lambda>x. f x = k) xs = []" by (simp add: filter_empty_conv)
    with True show ?thesis by simp
  next
    case False
    with Cons show ?thesis by auto
  qed
qed

lemma memoryWrite_existing:
  assumes "memoryRead db (w_key params) = Some m"
  shows "memoryRead (snd (memoryWrite now db params)) (w_key params)
           = Some (m\<lparr>m_content := w_content params,
                     m_tags := map_option (\<lambda>tags. JSON_stringify (JArr (map JStr tags)))
                                 (w_tags params),
                     m_scope := (case w_scope params of None \<Rightarrow> ''global'' | Some x \<Rightarrow> x),
                     m_source := Some (case w_source params of None \<Rightarrow> ''manual'' | Some x \<Rightarrow> x),
                     m_updated_at := CURRENT_TIMESTAMP now\<rparr>)"
    and "length (t_memory (snd (memoryWrite now db params))) = length (t_memory db)"
proof -
  from assms have m: "m_key m = w_key params" "m \<in> set (t_memory db)"
    using find_SomeD[of "\<lambda>m. m_key m = w_key params" "t_memory db" m]
    by (simp_all add: memoryRead_def)
  then have ex: "\<exists>m \<in> set (t_memory db). m_key m = w_key params" by blast
  let ?f = "memory_overwrite now (w_key params) (w_content params)
              (map_option (\<lambda>tags. JSON_stringify (JArr (map JStr tags))) (w_tags params))
              (case w_scope params of None \<Rightarrow> ''global'' | Some x \<Rightarrow> x)
              (case w_source params of None \<Rightarrow> ''manual'' | Some x \<Rightarrow> x)"
  have db': "t_memory (snd (memoryWrite now db params)) = map ?f (t_memory db)"
    using ex by (simp add: memoryWrite_def Let_def)
  show "length (t_memory (snd (memoryWrite now db params))) = length (t_memory db)"
    unfolding db' by simp
  have "find (\<lambda>m. m_key m = w_key params) (map ?f (t_memory db))
          = map_option ?f (find (\<lambda>m. m_key m = w_key params) (t_memory db))"
    by (rule find_map_same) (simp add: memory_overwrite_def)
  then show "memoryRead (snd (memoryWrite now db params)) (w_key params)
           = Some (m\<lparr>m_content := w_content params,
                     m_tags := map_option (\<lambda>tags. JSON_stringify (JArr (map JStr tags)))
                                 (w_tags params),
                     m_scope := (case w_scope params of None \<Rightarrow> ''global'' | Some x \<Rightarrow> x),
                     m_source := Some (case w_source params of None \<Rightarrow> ''manual'' | Some x \<Rightarrow> x),
                     m_updated_at := CURRENT_TIMESTAMP now\<rparr>)"
    using assms m unfolding memoryRead_def db' by (simp add: memory_overwrite_def)
qed


text \<open>
  Claim C5. Starting from a table whose keys are distinct (the empty one, or any table
  under the UNIQUE constraint), after any sequence of \<open>memoryWrite\<close> calls the keys are
  still distinct, and every key that was written or was there before has exactly one row.
  A \<open>memoryWrite\<close> to an existing key keeps the row (its id and \<open>created_at\<close>
  included), replaces content, tags, scope and source, sets \<open>updated_at\<close> to the
  current timestamp, and adds no row.
\<close>

theorem memoryWrite_upsert:
  "distinct (map m_key (t_memory db)) \<Longrightarrow>
     distinct (map m_key (t_memory (memoryWrites db ws)))
     \<and> (\<forall>k. k \<in> set (map (\<lambda>w. w_key (snd w)) ws) \<union> set (map m_key (t_memory db)) \<longrightarrow>
           length (filter (\<lambda>m. m_key m = k) (t_memory (memoryWrites db ws))) = 1)
     \<and> (\<forall>m. memoryRead db (w_key params) = Some m \<longrightarrow>
           memoryRead (snd (memoryWrite now db params)) (w_key params)
             = Some (m\<lparr>m_content := w_content params,
                       m_tags := map_option (\<lambda>tags. JSON_stringify (JArr (map JStr tags)))
                                   (w_tags params),
                       m_scope := (case w_scope params of None \<Rightarrow> ''global'' | Some x \<Rightarrow> x),
                       m_source := Some (case w_source params of None \<Rightarrow> ''manual''
                                         | Some x \<Rightarrow> x),
                       m_updated_at := CURRENT_TIMESTAMP now\<rparr>)
           \<and> length (t_memory (snd (memoryWrite now db params))) = length (t_memory db))"
proof (intro conjI allI impI)
  assume d: "distinct (map m_key (t_memory db))"
  show d': "distinct (map m_key (t_memory (memoryWrites db ws)))"
    by (rule memoryWrites_distinct[OF d])
  fix k assume "k \<in> set (map (\<lambda>w. w_key (snd w)) ws) \<union> set (map m_key (t_memory db))"
  then have "k \<in> set (map m_key (t_memory (memoryWrites db ws)))"
    unfolding memoryWrites_key_set .
  with d' show "length (filter (\<lambda>m. m_key m = k) (t_memory (memoryWrites db ws))) = 1"
    by (rule one_row_per_key)
next
  fix m assume "memoryRead db (w_key params) = Some m"
  then show "memoryRead (snd (memoryWrite now db params)) (w_key params)
             = Some (m\<lparr>m_content := w_content params,
                       m_tags := map_option (\<lambda>tags. JSON_stringify (JArr (map JStr tags)))
                                   (w_tags params),
                       m_scope := (case w_scope params of None \<Rightarrow> ''global'' | Some x \<Rightarrow> x),
                       m_source := Some (case w_source params of None \<Rightarrow> ''manual''
                                         | Some x \<Rightarrow> x),
                       m_updated_at := CURRENT_TIMESTAMP now\<rparr>)"
    by (rule memoryWrite_existing(1))
next
  fix m assume "memoryRead db (w_key params) = Some m"
  then show "length (t_memory (snd (memoryWrite now db params))) = length (t_memory db)"
    by (rule memoryWrite_existing(2))
qed


text \<open>
  The theorem on the empty database with three writes, two of them to \<^verbatim>\<open>tip:a\<close>, and
  for the second write to \<^verbatim>\<open>tip:a\<close> a minute after the first.
\<close>

theorem memoryWrite_upsert_witness:
  "distinct (map m_key (t_memory empty_db))
   \<and> length (filter (\<lambda>m. m_key m = ''tip:a'')
        (t_memory (memoryWrites empty_db (sample_writes @ [(noon + 60000, sample_rewrite)])))) = 1
   \<and> distinct (map m_key (t_memory sample_written))
   \<and> memoryRead sample_written (w_key sample_rewrite) = Some (hd (t_memory sample_written))
   \<and> map_option (\<lambda>m. (m_id m, m_content m, m_tags m, m_scope m, m_source m,
                       m_created_at m, m_updated_at m))
        (memoryRead (snd (memoryWrite (noon + 60000) sample_written sample_rewrite))
           (w_key sample_rewrite))
       = Some (1, ''second'', None, ''project:x'', Some ''evolve'',
               ''2026-11-03 12:00:00'', ''2026-11-03 12:01:00'')
   \<and> length (t_memory (snd (memoryWrite (noon + 60000) sample_written sample_rewrite))) = 2"
proof -
  have d0: "distinct (map m_key (t_memory empty_db))"
    by (simp add: empty_db_def)
  have d1: "distinct (map m_key (t_memory sample_written))"
    by (simp add: sample_written_eq)
  have k: "''tip:a'' \<in> set (map (\<lambda>w. w_key (snd w)) (sample_writes @ [(noon + 60000, sample_rewrite)]))
             \<union> set (map m_key (t_memory empty_db))"
    by (simp add: sample_writes_def)
  have r: "memoryRead sample_written (w_key sample_rewrite) = Some (hd (t_memory sample_written))"
    by (simp add: sample_written_eq sample_rewrite_def memoryRead_def)
  note A = memoryWrite_upsert[OF d0, of "sample_writes @ [(noon + 60000, sample_rewrite)]",
             THEN conjunct2, THEN conjunct1, rule_format, OF k]
  note B = memoryWrite_upsert[OF d1, of sample_writes sample_rewrite "noon + 60000",
             THEN conjunct2, THEN conjunct2, rule_format, OF r]
  have v: "hd (t_memory sample_written) =
        \<lparr>m_id = 1, m_key = ''tip:a'', m_content = ''first'',
          m_tags = Some [CHR ''['', CHR 0x22, CHR ''t'', CHR 0x22, CHR '']''],
          m_scope = ''global'', m_source = Some ''manual'',
          m_created_at = ''2026-11-03 12:00:00'', m_updated_at = ''2026-11-03 12:00:00''\<rparr>"
    "length (t_memory sample_written) = 2"
    by (simp_all add: sample_written_eq)
  have w: "w_content sample_rewrite = ''second''" "w_tags sample_rewrite = None"
    "w_scope sample_rewrite = Some ''project:x''" "w_source sample_rewrite = Some ''evolve''"
    by (simp_all add: sample_rewrite_def)
  from B have "map_option (\<lambda>m. (m_id m, m_content m, m_tags m, m_scope m, m_source m,
                       m_created_at m, m_updated_at m))
        (memoryRead (snd (memoryWrite (noon + 60000) sample_written sample_rewrite))
           (w_key sample_rewrite))
       = Some (1, ''second'', None, ''project:x'', Some ''evolve'',
               ''2026-11-03 12:00:00'', ''2026-11-03 12:01:00'')"
    and "length (t_memory (snd (memoryWrite (noon + 60000) sample_written sample_rewrite))) = 2"
    by (simp_all add: v w ts_noon_1min)
  with A d0 d1 r show ?thesis by simp
qed





section \<open>JSON round trip\<close>

lemma of_char_digit_char: "of_char (digit_char n) = (48 + n mod 10 :: nat)"
  by (simp add: digit_char_def)

lemma is_digit_digit_char: "is_digit (digit_char n)"
  by (simp add: is_digit_def of_char_digit_char)

lemma show_nat_nonempty: "show_nat n \<noteq> []"
  by (subst show_nat.simps) simp

lemma show_nat_digits: "\<forall>c \<in> set (show_nat n). is_digit c"
proof (induction n rule: show_nat.induct)
  case (1 n)
  show ?case
    by (subst show_nat.simps) (use 1 in \<open>auto simp: is_digit_digit_char\<close>)
qed

lemma read_nat_snoc: "read_nat (ds @ [c]) = 10 * read_nat ds + (of_char c - 48)"
  by (simp add: read_nat_def)

lemma read_nat_show_nat: "read_nat (show_nat n) = n"
proof (induction n rule: show_nat.induct)
  case (1 n)
  show ?case
  proof (cases "n < 10")
    case True
    then show ?thesis
      by (subst show_nat.simps) (simp add: read_nat_def of_char_digit_char)
  next
    case False
    then have "read_nat (show_nat n) = 10 * read_nat (show_nat (n div 10)) + n mod 10"
      by (subst show_nat.simps) (simp add: read_nat_snoc of_char_digit_char)
    with False 1 show ?thesis by simp
  qed
qed

lemma digit_char_not_zero: "0 < n \<Longrightarrow> n < 10 \<Longrightarrow> digit_char n \<noteq> CHR ''0''"
proof
  assume a: "0 < n" "n < 10" "digit_char n = CHR ''0''"
  have "(of_char (digit_char n) :: nat) = of_char (CHR ''0'')"
    by (rule arg_cong[OF a(3)])
  with a(1,2) show False by (simp add: of_char_digit_char)
qed

lemma show_nat_leading: "0 < n \<Longrightarrow> hd (show_nat n) \<noteq> CHR ''0''"
proof (induction n rule: show_nat.induct)
  case (1 n)
  show ?case
  proof (cases "n < 10")
    case True
    with 1 show ?thesis
      by (subst show_nat.simps) (simp add: digit_char_not_zero)
  next
    case False
    then have "0 < n div 10" by simp
    with False 1 have "hd (show_nat (n div 10)) \<noteq> CHR ''0''" by simp
    with False show ?thesis
      by (subst show_nat.simps) (simp add: show_nat_nonempty)
  qed
qed

lemma char_of_48: "char_of (48 :: nat) = CHR ''0''"
  by code_simp

lemma show_nat_zero: "show_nat 0 = ''0''"
  by (subst show_nat.simps) (simp add: digit_char_def char_of_48)

lemma show_nat_no_leading_zero: "1 < length (show_nat n) \<Longrightarrow> hd (show_nat n) \<noteq> CHR ''0''"
  by (cases "n = 0") (simp_all add: show_nat_zero show_nat_leading)

lemma takeWhile_digits:
  "\<forall>c \<in> set ds. is_digit c \<Longrightarrow> rest = [] \<or> \<not> is_digit (hd rest) \<Longrightarrow>
     takeWhile is_digit (ds @ rest) = ds \<and> dropWhile is_digit (ds @ rest) = rest"
  by (induction ds) (auto simp: takeWhile_eq_Nil_iff dropWhile_eq_self_iff)

lemma delimited_not_digit:
  "delimited rest \<Longrightarrow> rest = [] \<or> \<not> is_digit (hd rest)"
  by (auto simp: delimited_def is_digit_def)

lemma delimited_not_frac:
  "delimited rest \<Longrightarrow>
     \<not> (rest \<noteq> [] \<and> (hd rest = CHR ''.'' \<or> hd rest = CHR ''e'' \<or> hd rest = CHR ''E''))"
  by (auto simp: delimited_def)

lemma hd_show_nat_digit: "is_digit (hd (show_nat n))"
  using show_nat_digits[of n] show_nat_nonempty[of n] by (cases "show_nat n") auto

lemma parse_number_show_int:
  assumes "delimited rest"
  shows "parse_number (show_int i @ rest) = Some (JNum i, rest)"
proof (cases "i < 0")
  case True
  let ?ds = "show_nat (nat (- i))"
  have tw: "takeWhile is_digit (?ds @ rest) = ?ds" "dropWhile is_digit (?ds @ rest) = rest"
    using takeWhile_digits[OF show_nat_digits delimited_not_digit[OF assms]] by auto
  have "show_int i @ rest = CHR ''-'' # ?ds @ rest"
    using True by (simp add: show_int_def)
  then show ?thesis
    using True tw delimited_not_frac[OF assms] show_nat_no_leading_zero[of "nat (- i)"]
    by (simp add: parse_number_def Let_def show_nat_nonempty read_nat_show_nat)
next
  case False
  let ?ds = "show_nat (nat i)"
  have tw: "takeWhile is_digit (?ds @ rest) = ?ds" "dropWhile is_digit (?ds @ rest) = rest"
    using takeWhile_digits[OF show_nat_digits delimited_not_digit[OF assms]] by auto
  have s: "show_int i @ rest = ?ds @ rest"
    using False by (simp add: show_int_def)
  have "hd (?ds @ rest) \<noteq> CHR ''-''"
    using hd_show_nat_digit[of "nat i"] show_nat_nonempty[of "nat i"]
    by (auto simp: is_digit_def)
  then show ?thesis
    unfolding s using False tw delimited_not_frac[OF assms] show_nat_no_leading_zero[of "nat i"]
    by (simp add: parse_number_def Let_def show_nat_nonempty read_nat_show_nat)
qed

lemma char_by_code: "of_char c = (n :: nat) \<Longrightarrow> c = char_of n"
  by (metis char_of_char)

lemma char_codes:
  "char_of (34 :: nat) = CHR 0x22" "char_of (92 :: nat) = CHR 0x5C"
  "char_of (8 :: nat) = CHR 0x08" "char_of (12 :: nat) = CHR 0x0C"
  "char_of (10 :: nat) = CHR 0x0A" "char_of (13 :: nat) = CHR 0x0D"
  "char_of (9 :: nat) = CHR 0x09"
  by code_simp+

lemma hex_val_hex_char: "hex_val (hex_char m) = Some (m mod 16)"
proof -
  have "m mod 16 < 16" by simp
  then show ?thesis
    by (auto simp: hex_val_def hex_char_def Let_def)
qed

lemma hex_pair: "(n :: nat) < 32 \<Longrightarrow> n div 16 mod 16 * 16 + n mod 16 = n"
proof -
  assume "n < 32"
  then have "n div 16 < 16" by simp
  then have "n div 16 mod 16 = n div 16" by simp
  then show ?thesis by simp
qed

lemma hex4_low:
  "(n :: nat) < 32 \<Longrightarrow> hex4 CHR ''0'' CHR ''0'' (hex_char (n div 16)) (hex_char n) = Some (char_of n)"
  by (simp add: hex4_def hex_val_hex_char hex_val_def[of "CHR ''0''"] Let_def hex_pair)

lemma prepend_simps:
  "prepend c None = None" "prepend c (Some (s, r)) = Some (c # s, r)"
  by (simp_all add: prepend_def)

lemma parse_chars_escape_char:
  "parse_chars (escape_char c @ X) = prepend c (parse_chars X)"
proof -
  let ?n = "of_char c :: nat"
  consider "?n = 34" | "?n = 92" | "?n = 8" | "?n = 12" | "?n = 10" | "?n = 13" | "?n = 9"
    | "?n < 32" "?n \<noteq> 8" "?n \<noteq> 12" "?n \<noteq> 10" "?n \<noteq> 13" "?n \<noteq> 9"
    | "32 \<le> ?n" "?n \<noteq> 34" "?n \<noteq> 92"
    by linarith
  then show ?thesis
  proof cases
    case 1
    then have "c = CHR 0x22" using char_by_code char_codes by metis
    then show ?thesis by (simp add: escape_char_def simple_escape_def)
  next
    case 2
    then have "c = CHR 0x5C" using char_by_code char_codes by metis
    then show ?thesis by (simp add: escape_char_def simple_escape_def)
  next
    case 3
    then have "c = CHR 0x08" using char_by_code char_codes by metis
    then show ?thesis by (simp add: escape_char_def simple_escape_def)
  next
    case 4
    then have "c = CHR 0x0C" using char_by_code char_codes by metis
    then show ?thesis by (simp add: escape_char_def simple_escape_def)
  next
    case 5
    then have "c = CHR 0x0A" using char_by_code char_codes by metis
    then show ?thesis by (simp add: escape_char_def simple_escape_def)
  next
    case 6
    then have "c = CHR 0x0D" using char_by_code char_codes by metis
    then show ?thesis by (simp add: escape_char_def simple_escape_def)
  next
    case 7
    then have "c = CHR 0x09" using char_by_code char_codes by metis
    then show ?thesis by (simp add: escape_char_def simple_escape_def)
  next
    case 8
    have e: "escape_char c = [CHR 0x5C, CHR ''u'', CHR ''0'', CHR ''0'',
                              hex_char (?n div 16), hex_char ?n]"
      using 8 by (simp add: escape_char_def Let_def)
    have "hex4 CHR ''0'' CHR ''0'' (hex_char (?n div 16)) (hex_char ?n) = Some c"
      using hex4_low[OF 8(1)] by simp
    then show ?thesis
      unfolding e by simp
  next
    case 9
    then have "escape_char c = [c]"
      by (auto simp: escape_char_def Let_def)
    moreover have "c \<noteq> CHR 0x22" "c \<noteq> CHR 0x5C"
      using 9 by auto
    ultimately show ?thesis
      using 9(1) by simp
  qed
qed

lemma parse_chars_quote:
  "parse_chars (concat (map escape_char s) @ CHR 0x22 # rest) = Some (s, rest)"
proof (induction s)
  case Nil
  then show ?case by simp
next
  case (Cons c s)
  have "parse_chars (concat (map escape_char (c # s)) @ CHR 0x22 # rest)
        = parse_chars (escape_char c @ (concat (map escape_char s) @ CHR 0x22 # rest))"
    by simp
  also have "\<dots> = prepend c (parse_chars (concat (map escape_char s) @ CHR 0x22 # rest))"
    by (rule parse_chars_escape_char)
  finally show ?case
    by (simp add: Cons.IH prepend_simps)
qed

lemma skip_ws_start: "\<not> is_ws c \<Longrightarrow> skip_ws (c # cs) = c # cs"
  by (simp add: skip_ws_def)

lemma digit_start:
  assumes "is_digit c \<or> c = CHR ''-''"
  shows "\<not> is_ws c" "c \<noteq> CHR ''{''" "c \<noteq> CHR ''[''" "c \<noteq> CHR 0x22" "c \<noteq> CHR ''t''"
    "c \<noteq> CHR ''f''" "c \<noteq> CHR ''n''" "c \<noteq> CHR '']''" "c \<noteq> CHR ''}''"
  using assms by (auto simp: is_digit_def is_ws_def)

lemma show_int_start:
  "\<exists>c cs. show_int i = c # cs \<and> (is_digit c \<or> c = CHR ''-'')"
proof (cases "i < 0")
  case True
  then show ?thesis by (simp add: show_int_def)
next
  case False
  obtain c cs where "show_nat (nat i) = c # cs"
    using show_nat_nonempty[of "nat i"] by (cases "show_nat (nat i)") auto
  moreover from this have "is_digit c"
    using hd_show_nat_digit[of "nat i"] by simp
  ultimately show ?thesis using False by (simp add: show_int_def)
qed

text \<open>The text of a value starts with a character that is neither blank nor closing.\<close>

lemma stringify_start:
  "\<exists>c cs. JSON_stringify v = c # cs \<and> \<not> is_ws c \<and> c \<noteq> CHR '']'' \<and> c \<noteq> CHR ''}''"
proof (cases v)
  case (JNum i)
  from show_int_start[of i] obtain c cs where
    "show_int i = c # cs" "is_digit c \<or> c = CHR ''-''" by blast
  with JNum digit_start[of c] show ?thesis by auto
qed (auto simp: is_ws_def quote_def)

lemma parse_value_null:
  "parse_value (Suc n) (''null'' @ rest) = Some (JNull, rest)"
  by (simp add: skip_ws_def is_ws_def strip_prefix_def)

lemma parse_value_bool:
  "parse_value (Suc n) ((if b then ''true'' else ''false'') @ rest) = Some (JBool b, rest)"
  by (simp add: skip_ws_def is_ws_def strip_prefix_def)

lemma parse_value_num:
  assumes "delimited rest"
  shows "parse_value (Suc n) (show_int i @ rest) = Some (JNum i, rest)"
proof -
  from show_int_start[of i] obtain c cs where
    s: "show_int i = c # cs" and c: "is_digit c \<or> c = CHR ''-''" by blast
  have "parse_value (Suc n) (c # cs @ rest) = parse_number (c # cs @ rest)"
    using digit_start[OF c] by (simp add: skip_ws_start)
  then show ?thesis
    using parse_number_show_int[OF assms, of i] by (simp add: s)
qed

lemma parse_value_str:
  "parse_value (Suc n) (quote s @ rest) = Some (JStr s, rest)"
  by (simp add: quote_def skip_ws_def is_ws_def parse_chars_quote)

lemma delimited_simps:
  "delimited (CHR '']'' # r)" "delimited (CHR '','' # r)" "delimited (CHR ''}'' # r)"
  "delimited []"
  by (simp_all add: delimited_def)

lemma closing_not_ws: "\<not> is_ws CHR '']''" "\<not> is_ws CHR '',''" "\<not> is_ws CHR ''}''"
  "\<not> is_ws CHR '':''" "\<not> is_ws CHR 0x22"
  by (simp_all add: is_ws_def)

lemma parse_elements_join:
  assumes "\<forall>v \<in> set vs. parses_back v" and "vs \<noteq> []"
    and "sum_list (map (\<lambda>v. Suc (budget v)) vs) \<le> n"
  shows "parse_elements n (join_comma (map JSON_stringify vs) @ CHR '']'' # rest)
           = Some (vs, rest)"
  using assms
proof (induction vs arbitrary: n)
  case Nil
  then show ?case by simp
next
  case (Cons v vs)
  from Cons.prems(3) obtain m where n: "n = Suc m" and m: "budget v + sum_list (map (\<lambda>v. Suc (budget v)) vs) \<le> m"
    by (cases n) auto
  from Cons.prems(1) have pv: "parses_back v" by simp
  show ?case
  proof (cases vs)
    case Nil
    have "parse_value m (JSON_stringify v @ CHR '']'' # rest) = Some (v, CHR '']'' # rest)"
      using pv m by (simp add: parses_back_def delimited_simps)
    then show ?thesis
      unfolding n Nil by (simp add: skip_ws_start closing_not_ws)
  next
    case (Cons w ws)
    have "parse_value m (JSON_stringify v @ CHR '','' # join_comma (map JSON_stringify vs)
                           @ CHR '']'' # rest)
          = Some (v, CHR '','' # join_comma (map JSON_stringify vs) @ CHR '']'' # rest)"
      using pv m by (simp add: parses_back_def delimited_simps)
    moreover have "parse_elements m (join_comma (map JSON_stringify vs) @ CHR '']'' # rest)
          = Some (vs, rest)"
      using Cons.prems(1) m Cons by (intro Cons.IH) auto
    ultimately show ?thesis
      unfolding n using Cons by (simp add: skip_ws_start closing_not_ws)
  qed
qed

lemma parses_back_arr:
  assumes "\<forall>v \<in> set vs. parses_back v"
  shows "parses_back (JArr vs)"
  unfolding parses_back_def
proof (intro allI impI)
  fix n rest
  assume b: "budget (JArr vs) \<le> n" and d: "delimited rest"
  then obtain m where n: "n = Suc m" and m: "sum_list (map (\<lambda>v. Suc (budget v)) vs) \<le> m"
    by (cases n) auto
  show "parse_value n (JSON_stringify (JArr vs) @ rest) = Some (JArr vs, rest)"
  proof (cases "vs = []")
    case True
    then show ?thesis
      unfolding n by (simp add: skip_ws_def is_ws_def)
  next
    case False
    then obtain v ws where vs: "vs = v # ws" by (cases vs) auto
    from stringify_start[of v] obtain c cs where
      c: "JSON_stringify v = c # cs" "\<not> is_ws c" "c \<noteq> CHR '']''" by blast
    have "\<exists>tl. join_comma (map JSON_stringify vs) = c # tl"
      unfolding vs using c(1) by (cases ws) auto
    then obtain tl where j: "join_comma (map JSON_stringify vs) = c # tl" by blast
    have pe: "parse_elements m (c # tl @ CHR '']'' # rest) = Some (vs, rest)"
      using parse_elements_join[OF assms False m, of rest] unfolding j by simp
    show ?thesis
      unfolding n using pe c(2,3)
      by (simp add: j skip_ws_start is_ws_def)
  qed
qed

lemma parse_members_step:
  "parse_members (Suc m) (member_text (k, v) @ X) =
     (case parse_value m (JSON_stringify v @ X) of
        None \<Rightarrow> None
      | Some (v', r3) \<Rightarrow>
          (case skip_ws r3 of
             [] \<Rightarrow> None
           | d # r4 \<Rightarrow>
               if d = CHR ''}'' then Some ([(k, v')], r4)
               else if d = CHR '','' then
                 (case parse_members m r4 of
                    None \<Rightarrow> None
                  | Some (ms, r5) \<Rightarrow> Some ((k, v') # ms, r5))
               else None))"
proof -
  have key: "parse_chars (concat (map escape_char k) @ CHR 0x22 # CHR '':'' # Y)
             = Some (k, CHR '':'' # Y)" for Y
    by (rule parse_chars_quote)
  show ?thesis
    by (simp add: member_text_def quote_def skip_ws_start closing_not_ws key)
qed

lemma parse_members_join:
  assumes "\<forall>kv \<in> set kvs. parses_back (snd kv)" and "kvs \<noteq> []"
    and "sum_list (map (\<lambda>kv. Suc (budget (snd kv))) kvs) \<le> n"
  shows "parse_members n (join_comma (map member_text kvs) @ CHR ''}'' # rest)
           = Some (kvs, rest)"
  using assms
proof (induction kvs arbitrary: n)
  case Nil
  then show ?case by simp
next
  case (Cons kv kvs)
  obtain k v where kv: "kv = (k, v)" by (cases kv)
  from Cons.prems(3) obtain m where n: "n = Suc m"
    and m: "budget v + sum_list (map (\<lambda>kv. Suc (budget (snd kv))) kvs) \<le> m"
    unfolding kv by (cases n) auto
  from Cons.prems(1) have pv: "parses_back v" unfolding kv by simp
  show ?case
  proof (cases kvs)
    case Nil
    have P: "parse_value m (JSON_stringify v @ CHR ''}'' # rest) = Some (v, CHR ''}'' # rest)"
      using pv m by (simp add: parses_back_def delimited_simps)
    have J: "join_comma (map member_text ((k, v) # kvs)) @ CHR ''}'' # rest
          = member_text (k, v) @ CHR ''}'' # rest"
      using Nil by simp
    show ?thesis
      unfolding n kv J parse_members_step P
      using Nil by (simp add: skip_ws_start closing_not_ws)
  next
    case (Cons w ws)
    have P: "parse_value m (JSON_stringify v @ CHR '','' # join_comma (map member_text kvs)
                           @ CHR ''}'' # rest)
          = Some (v, CHR '','' # join_comma (map member_text kvs) @ CHR ''}'' # rest)"
      using pv m by (simp add: parses_back_def delimited_simps)
    have M: "parse_members m (join_comma (map member_text kvs) @ CHR ''}'' # rest)
          = Some (kvs, rest)"
      using Cons.prems(1) m Cons by (intro Cons.IH) auto
    have J: "join_comma (map member_text ((k, v) # kvs)) @ CHR ''}'' # rest
          = member_text (k, v) @ CHR '','' # join_comma (map member_text kvs) @ CHR ''}'' # rest"
      using Cons by simp
    show ?thesis
      unfolding n kv J parse_members_step P
      by (simp add: skip_ws_start closing_not_ws M)
  qed
qed

lemma parses_back_obj:
  assumes "\<forall>kv \<in> set kvs. parses_back (snd kv)"
  shows "parses_back (JObj kvs)"
  unfolding parses_back_def
proof (intro allI impI)
  fix n rest
  assume b: "budget (JObj kvs) \<le> n" and d: "delimited rest"
  then obtain m where n: "n = Suc m"
    and m: "sum_list (map (\<lambda>kv. Suc (budget (snd kv))) kvs) \<le> m"
    by (cases n) auto
  have obj: "JSON_stringify (JObj kvs) = CHR ''{'' # join_comma (map member_text kvs) @ ''}''"
    by (simp add: member_text_def[abs_def])
  show "parse_value n (JSON_stringify (JObj kvs) @ rest) = Some (JObj kvs, rest)"
  proof (cases "kvs = []")
    case True
    then show ?thesis
      unfolding n by (simp add: skip_ws_def is_ws_def)
  next
    case False
    then obtain kv ws where kvs: "kvs = kv # ws" by (cases kvs) auto
    have "\<exists>tl. join_comma (map member_text kvs) = CHR 0x22 # tl"
      unfolding kvs by (cases ws) (auto simp: member_text_def quote_def)
    then obtain tl where j: "join_comma (map member_text kvs) = CHR 0x22 # tl" by blast
    have pm: "parse_members m (CHR 0x22 # tl @ CHR ''}'' # rest) = Some (kvs, rest)"
      using parse_members_join[OF assms False m, of rest] unfolding j by simp
    show ?thesis
      unfolding n obj using pm
      by (simp add: j skip_ws_start is_ws_def)
  qed
qed

lemma parses_back_all: "parses_back v"
proof (induction v)
  case JNull
  show ?case unfolding parses_back_def
  proof (intro allI impI)
    fix n rest assume "budget JNull \<le> n"
    then obtain m where "n = Suc m" by (cases n) auto
    then show "parse_value n (JSON_stringify JNull @ rest) = Some (JNull, rest)"
      using parse_value_null[of m rest] by simp
  qed
next
  case (JBool b)
  show ?case unfolding parses_back_def
  proof (intro allI impI)
    fix n rest assume "budget (JBool b) \<le> n"
    then obtain m where "n = Suc m" by (cases n) auto
    then show "parse_value n (JSON_stringify (JBool b) @ rest) = Some (JBool b, rest)"
      using parse_value_bool[of m b rest] by simp
  qed
next
  case (JNum i)
  show ?case unfolding parses_back_def
  proof (intro allI impI)
    fix n rest assume "budget (JNum i) \<le> n" and d: "delimited rest"
    then obtain m where "n = Suc m" by (cases n) auto
    then show "parse_value n (JSON_stringify (JNum i) @ rest) = Some (JNum i, rest)"
      using parse_value_num[OF d, of m i] by simp
  qed
next
  case (JStr s)
  show ?case unfolding parses_back_def
  proof (intro allI impI)
    fix n rest assume "budget (JStr s) \<le> n"
    then obtain m where "n = Suc m" by (cases n) auto
    then show "parse_value n (JSON_stringify (JStr s) @ rest) = Some (JStr s, rest)"
      using parse_value_str[of m s rest] by simp
  qed
next
  case (JArr vs)
  then show ?case by (intro parses_back_arr) simp
next
  case (JObj kvs)
  then have "\<forall>kv \<in> set kvs. parses_back (snd kv)"
    by (auto simp: snds.simps)
  then show ?case by (rule parses_back_obj)
qed

lemma length_join_comma:
  "(\<Sum>x\<leftarrow>xs. Suc (length x)) \<le> Suc (length (join_comma xs))"
  by (induction xs rule: join_comma.induct) auto

lemma budget_le_length: "budget v \<le> length (JSON_stringify v)"
proof (induction v)
  case (JArr vs)
  have "(\<Sum>v\<leftarrow>vs. Suc (budget v)) \<le> (\<Sum>v\<leftarrow>vs. Suc (length (JSON_stringify v)))"
    using JArr by (intro sum_list_mono) simp
  also have "\<dots> = (\<Sum>x\<leftarrow>map JSON_stringify vs. Suc (length x))"
    by (simp add: comp_def)
  also have "\<dots> \<le> Suc (length (join_comma (map JSON_stringify vs)))"
    by (rule length_join_comma)
  finally show ?case by simp
next
  case (JObj kvs)
  have "(\<Sum>kv\<leftarrow>kvs. Suc (budget (snd kv))) \<le> (\<Sum>kv\<leftarrow>kvs. Suc (length (member_text kv)))"
  proof (intro sum_list_mono)
    fix kv assume "kv \<in> set kvs"
    then have "budget (snd kv) \<le> length (JSON_stringify (snd kv))"
      using JObj by (cases kv) (auto simp: snds.simps)
    then show "Suc (budget (snd kv)) \<le> Suc (length (member_text kv))"
      by (simp add: member_text_def)
  qed
  also have "\<dots> = (\<Sum>x\<leftarrow>map member_text kvs. Suc (length x))"
    by (simp add: comp_def)
  also have "\<dots> \<le> Suc (length (join_comma (map member_text kvs)))"
    by (rule length_join_comma)
  finally show ?case by (simp add: member_text_def[abs_def])
qed (simp_all add: show_int_def show_nat_nonempty Suc_leI quote_def)

text \<open>\<^verbatim>\<open>JSON.parse(JSON.stringify(v))\<close> is \<open>v\<close>.\<close>

lemma JSON_round_trip: "JSON_parse (JSON_stringify v) = Some v"
proof -
  have "budget v \<le> Suc (length (JSON_stringify v))"
    using budget_le_length[of v] by simp
  moreover have "delimited []"
    by (simp add: delimited_def)
  ultimately have
    "parse_value (Suc (length (JSON_stringify v))) (JSON_stringify v @ []) = Some (v, [])"
    using parses_back_all[of v] unfolding parses_back_def by blast
  then have "parse_value (Suc (length (JSON_stringify v))) (JSON_stringify v) = Some (v, [])"
    by (simp only: append_Nil2)
  then show ?thesis
    unfolding JSON_parse_def by (simp add: skip_ws_def del: parse_value.simps)
qed

section \<open>Context store\<close>







lemma ts_noon_1s: "CURRENT_TIMESTAMP (noon + 1000) = ''2026-11-03 12:00:01''"
  by code_simp

lemma iso_minus_1min: "toISOString (noon + - 1 * 60 * 1000) = Inr ''2026-11-03T11:59:00.000Z''"
  by code_simp


lemma expired_text_not_below:
  "\<not> text_lt ''2026-11-03T11:59:00.000Z'' ''2026-11-03 12:00:01''"
  by code_simp


lemma json_one: "JSON_stringify (JNum 1) = ''1''"
  by code_simp

lemma parse_one: "JSON_parse ''1'' = Some (JNum 1)"
  using JSON_round_trip[of "JNum 1"] by (simp only: json_one)

lemma sample_expired_eq:
  "sample_expired =
     \<lparr>t_memory = [], t_skills = [], t_skill_usage = [], t_failures = [],
      t_context = [\<lparr>c_id = 1, c_session_id = ''s'', c_key = ''k'', c_value = ''1'',
                    c_skill_name = None, c_expires_at = Some ''2026-11-03T11:59:00.000Z'',
                    c_created_at = ''2026-11-03 12:00:00''\<rparr>]\<rparr>"
  using iso_minus_1min json_one
  by (simp add: sample_expired_def contextSet_def context_upsert_def empty_db_def
        next_rowid_def ts_noon del: JSON_stringify.simps)








text \<open>
  Claim C3 fails on the code. \<^verbatim>\<open>set(s, k, 1, expires_in_minutes = -1)\<close> at noon stores
  the expiry \<^verbatim>\<open>2026-11-03T11:59:00.000Z\<close>. A second later \<^verbatim>\<open>CURRENT_TIMESTAMP\<close> is
  \<^verbatim>\<open>2026-11-03 12:00:01\<close>; the two texts agree up to the date, and then \<^verbatim>\<open>T\<close> is
  above the blank, so the expiry is not below the timestamp and the clean-up keeps the
  row: \<open>contextGet\<close> returns the value and \<open>contextList\<close> lists the key.
\<close>

theorem contextGet_returns_expired:
  "fst (contextSet noon empty_db ''s'' ''k'' (JNum 1) None (Some (- 1))) = Inr ''k''
   \<and> map c_expires_at (t_context sample_expired) = [Some ''2026-11-03T11:59:00.000Z'']
   \<and> CURRENT_TIMESTAMP (noon + 1000) = ''2026-11-03 12:00:01''
   \<and> fst (contextGet (noon + 1000) sample_expired ''s'' ''k'') = Some (JNum 1)
   \<and> map c_key (fst (contextList (noon + 1000) sample_expired ''s'')) = [''k'']"
proof -
  have "fst (contextSet noon empty_db ''s'' ''k'' (JNum 1) None (Some (- 1))) = Inr ''k''"
    using iso_minus_1min by (simp add: contextSet_def)
  moreover have "purge_expired (noon + 1000) sample_expired = sample_expired"
    using expired_text_not_below
    by (simp add: purge_expired_def sql_expired_def ts_noon_1s sample_expired_eq)
  moreover from this have "fst (contextGet (noon + 1000) sample_expired ''s'' ''k'') = Some (JNum 1)"
    by (simp add: contextGet_def) (simp add: sample_expired_eq parse_one)
  moreover from \<open>purge_expired (noon + 1000) sample_expired = sample_expired\<close>
  have "map c_key (fst (contextList (noon + 1000) sample_expired ''s'')) = [''k'']"
    by (simp add: contextList_def) (simp add: sample_expired_eq)
  ultimately show ?thesis
    by (simp add: ts_noon_1s) (simp add: sample_expired_eq)
qed


end
